theory Spec2Isabelle
  imports Main "HOL-Library.Word"
begin

section \<open>The native driver, as a parameter\<close>

text \<open>
  \<^verbatim>\<open>aisql_connection.hpp\<close> wraps the driver interface of \<^verbatim>\<open>cppconn\<close>
  (\<^verbatim>\<open>sql::Connection\<close>, \<^verbatim>\<open>sql::Statement\<close>, \<^verbatim>\<open>sql::ResultSet\<close>). The driver is
  not part of the repository, so it enters the model as a parameter: a record of
  functions over an arbitrary session state \<open>'s\<close> and an arbitrary row type \<open>'r\<close>.
  A driver call either returns or throws \<^verbatim>\<open>sql::SQLException\<close>.
\<close>

datatype sql_exception =
  SQLException (what: string) (getErrorCode: int) (getSQLState: string)

text \<open>
  What ends a step early: a driver exception in flight, or the dereference of a null
  \<^verbatim>\<open>result_\<close> handle (undefined behaviour in C++; the model stops there and
  reports it, no \<^verbatim>\<open>catch\<close> clause sees it).
\<close>

datatype fault = Thrown sql_exception | Null_deref

type_synonym dbl = "64 word"  \<comment> \<open>a \<^verbatim>\<open>double\<close>, by its bit pattern\<close>
type_synonym flt = "32 word"  \<comment> \<open>a \<^verbatim>\<open>float\<close>, by its bit pattern\<close>

record ('s, 'r) driver =
  isValid :: "'s \<Rightarrow> (sql_exception + bool) \<times> 's"
  reconnect :: "'s \<Rightarrow> (sql_exception + bool) \<times> 's"
  execute :: "string \<Rightarrow> 's \<Rightarrow> (sql_exception + bool) \<times> 's"
  getResultSet :: "'s \<Rightarrow> (sql_exception + 'r list option) \<times> 's"
    \<comment> \<open>the rows of the new result set; \<open>None\<close> is the null pointer that a statement
        without a result set gives\<close>
  getDouble :: "'r option \<Rightarrow> 32 word \<Rightarrow> sql_exception + dbl"
  getInt64 :: "'r option \<Rightarrow> 32 word \<Rightarrow> sql_exception + 64 word"
  getUInt64 :: "'r option \<Rightarrow> 32 word \<Rightarrow> sql_exception + 64 word"
  getString :: "'r option \<Rightarrow> 32 word \<Rightarrow> sql_exception + string"
    \<comment> \<open>the accessors read the row under the cursor (\<open>None\<close> when the cursor is on
        no row) at a column index\<close>

text \<open>
  A result set is a buffered table with a forward cursor: position \<open>0\<close> is before the
  first row, position \<open>k\<close> is on row \<open>k\<close>, a position beyond the last row is after it.
\<close>

record 'r result_set =
  rows :: "'r list"
  cursor :: nat

definition fresh_result :: "'r list \<Rightarrow> 'r result_set" where
  "fresh_result rws = \<lparr>rows = rws, cursor = 0\<rparr>"

definition current_row :: "'r result_set \<Rightarrow> 'r option" where
  "current_row rs =
     (if 0 < cursor rs \<and> cursor rs \<le> length (rows rs) then Some (rows rs ! (cursor rs - 1))
      else None)"

definition advance :: "'r result_set \<Rightarrow> 'r result_set" where
  "advance rs =
     (if cursor rs < length (rows rs) then rs\<lparr>cursor := Suc (cursor rs)\<rparr>
      else rs\<lparr>cursor := Suc (length (rows rs))\<rparr>)"

section \<open>The connection\<close>

datatype slot_type =
  T_float | T_double | T_int | T_int64 | T_uint | T_uint64 | T_string
  | T_other string  \<comment> \<open>any other \<^verbatim>\<open>T\<close>, with its \<^verbatim>\<open>typeid(T).name()\<close>\<close>

datatype slot_val =
  V_float flt | V_double dbl | V_int "32 word" | V_int64 "64 word"
  | V_uint "32 word" | V_uint64 "64 word" | V_string string | V_other int

datatype log_item = Text string | Type_name slot_type | Count nat | Code int

text \<open>The native calls a method makes, in order: a record kept beside the state.\<close>

datatype call =
  Call_isValid | Call_reconnect | Call_execute string | Call_getResultSet
  | Call_rowsCount | Call_next
  | Call_getDouble "32 word" | Call_getInt64 "32 word" | Call_getUInt64 "32 word"
  | Call_getString "32 word"

record ('s, 'r) connection =
  conn :: 's  \<comment> \<open>the native session behind \<^verbatim>\<open>conn_\<close> and \<^verbatim>\<open>stmt_\<close>\<close>
  result :: "'r result_set option"  \<comment> \<open>\<^verbatim>\<open>result_\<close>; \<open>None\<close> is the null handle\<close>
  logged :: "log_item list list"  \<comment> \<open>the lines sent to \<^verbatim>\<open>BOOST_LOG_T(error)\<close>\<close>
  calls :: "call list"

definition lift :: "sql_exception + 'a \<Rightarrow> fault + 'a" where
  "lift r = (case r of Inl e \<Rightarrow> Inl (Thrown e) | Inr x \<Rightarrow> Inr x)"

definition called :: "call \<Rightarrow> ('s, 'r) connection \<Rightarrow> ('s, 'r) connection" where
  "called k c = c\<lparr>calls := calls c @ [k]\<rparr>"

definition log_error :: "log_item list \<Rightarrow> ('s, 'r) connection \<Rightarrow> ('s, 'r) connection" where
  "log_error line c = c\<lparr>logged := logged c @ [line]\<rparr>"

definition conn_isValid ::
  "('s, 'r) driver \<Rightarrow> ('s, 'r) connection \<Rightarrow> (fault + bool) \<times> ('s, 'r) connection" where
  "conn_isValid d c =
     (case isValid d (conn c) of (r, s) \<Rightarrow> (lift r, called Call_isValid (c\<lparr>conn := s\<rparr>)))"

definition conn_reconnect ::
  "('s, 'r) driver \<Rightarrow> ('s, 'r) connection \<Rightarrow> (fault + bool) \<times> ('s, 'r) connection" where
  "conn_reconnect d c =
     (case reconnect d (conn c) of (r, s) \<Rightarrow> (lift r, called Call_reconnect (c\<lparr>conn := s\<rparr>)))"

definition stmt_execute ::
  "('s, 'r) driver \<Rightarrow> string \<Rightarrow> ('s, 'r) connection \<Rightarrow> (fault + bool) \<times> ('s, 'r) connection" where
  "stmt_execute d sql c =
     (case execute d sql (conn c) of
        (r, s) \<Rightarrow> (lift r, called (Call_execute sql) (c\<lparr>conn := s\<rparr>)))"

definition stmt_getResultSet ::
  "('s, 'r) driver \<Rightarrow> ('s, 'r) connection \<Rightarrow>
   (fault + 'r list option) \<times> ('s, 'r) connection" where
  "stmt_getResultSet d c =
     (case getResultSet d (conn c) of
        (r, s) \<Rightarrow> (lift r, called Call_getResultSet (c\<lparr>conn := s\<rparr>)))"

text \<open>\<^verbatim>\<open>result_->rowsCount()\<close>, \<^verbatim>\<open>result_->next()\<close> and the accessors, through the handle.\<close>

definition result_rowsCount ::
  "('s, 'r) connection \<Rightarrow> (fault + nat) \<times> ('s, 'r) connection" where
  "result_rowsCount c =
     (case result c of
        None \<Rightarrow> (Inl Null_deref, c)
      | Some rs \<Rightarrow> (Inr (length (rows rs)), called Call_rowsCount c))"

definition result_next ::
  "('s, 'r) connection \<Rightarrow> (fault + bool) \<times> ('s, 'r) connection" where
  "result_next c =
     (case result c of
        None \<Rightarrow> (Inl Null_deref, c)
      | Some rs \<Rightarrow>
          (Inr (cursor rs < length (rows rs)),
           called Call_next (c\<lparr>result := Some (advance rs)\<rparr>)))"

definition result_getDouble ::
  "('s, 'r) driver \<Rightarrow> 32 word \<Rightarrow> ('s, 'r) connection \<Rightarrow> (fault + dbl) \<times> ('s, 'r) connection" where
  "result_getDouble d idx c =
     (case result c of
        None \<Rightarrow> (Inl Null_deref, c)
      | Some rs \<Rightarrow> (lift (getDouble d (current_row rs) idx), called (Call_getDouble idx) c))"

definition result_getInt64 ::
  "('s, 'r) driver \<Rightarrow> 32 word \<Rightarrow> ('s, 'r) connection \<Rightarrow>
   (fault + 64 word) \<times> ('s, 'r) connection" where
  "result_getInt64 d idx c =
     (case result c of
        None \<Rightarrow> (Inl Null_deref, c)
      | Some rs \<Rightarrow> (lift (getInt64 d (current_row rs) idx), called (Call_getInt64 idx) c))"

definition result_getUInt64 ::
  "('s, 'r) driver \<Rightarrow> 32 word \<Rightarrow> ('s, 'r) connection \<Rightarrow>
   (fault + 64 word) \<times> ('s, 'r) connection" where
  "result_getUInt64 d idx c =
     (case result c of
        None \<Rightarrow> (Inl Null_deref, c)
      | Some rs \<Rightarrow> (lift (getUInt64 d (current_row rs) idx), called (Call_getUInt64 idx) c))"

definition result_getString ::
  "('s, 'r) driver \<Rightarrow> 32 word \<Rightarrow> ('s, 'r) connection \<Rightarrow>
   (fault + string) \<times> ('s, 'r) connection" where
  "result_getString d idx c =
     (case result c of
        None \<Rightarrow> (Inl Null_deref, c)
      | Some rs \<Rightarrow> (lift (getString d (current_row rs) idx), called (Call_getString idx) c))"

section \<open>The result binder: one slot\<close>

text \<open>
  \<^verbatim>\<open>static_cast<float>\<close> of a \<^verbatim>\<open>double\<close>, on the bit patterns: the conversion of
  IEEE 754 binary64 to binary32 in the default rounding mode, to nearest with ties to
  even. \<open>round_shift m k\<close> is \<open>m / 2 ^ k\<close> so rounded. A double has a sign, eleven
  exponent bits \<open>e\<close> and 52 fraction bits \<open>f\<close>; the float has the same sign. A
  magnitude too large for a float gives an infinity, one below half the least float gives
  zero, a NaN stays a NaN (quiet, with the top bits of its payload). For \<open>896 < e\<close>
  the result is normal: the 53-bit significand loses 29 bits, and a carry out of the
  rounding moves into the exponent; for \<open>e \<le> 896\<close> it is subnormal, in units of
  \<open>2 ^ -149\<close>.
\<close>

definition round_shift :: "nat \<Rightarrow> nat \<Rightarrow> nat" where
  "round_shift m k =
     (let q = m div 2 ^ k; r = m mod 2 ^ k
      in if 2 ^ k < 2 * r \<or> (2 * r = 2 ^ k \<and> odd q) then q + 1 else q)"

definition float_of_double :: "dbl \<Rightarrow> flt" where
  "float_of_double x =
     (let n = unat x;
          s = n div 2 ^ 63;
          e = (n div 2 ^ 52) mod 2048;
          f = n mod 2 ^ 52
      in of_nat (s * 2 ^ 31 +
           (if e = 2047 then
              (if f = 0 then 255 * 2 ^ 23 else 255 * 2 ^ 23 + 2 ^ 22 + (f div 2 ^ 29) mod 2 ^ 22)
            else if e = 0 then 0
            else if 896 < e then
              min (255 * 2 ^ 23) ((e - 897) * 2 ^ 23 + round_shift (2 ^ 52 + f) 29)
            else round_shift (2 ^ 52 + f) (926 - e))))"

text \<open>
  \<^verbatim>\<open>static_cast<T>\<close> in the three branches of the generic template. A branch runs
  only for its two types; \<^verbatim>\<open>int\<close> and \<^verbatim>\<open>unsigned int\<close> keep the low 32 bits.
\<close>

definition cast_double :: "slot_type \<Rightarrow> dbl \<Rightarrow> slot_val" where
  "cast_double ty x = (if ty = T_float then V_float (float_of_double x) else V_double x)"

definition cast_int64 :: "slot_type \<Rightarrow> 64 word \<Rightarrow> slot_val" where
  "cast_int64 ty x = (if ty = T_int then V_int (ucast x) else V_int64 x)"

definition cast_uint64 :: "slot_type \<Rightarrow> 64 word \<Rightarrow> slot_val" where
  "cast_uint64 ty x = (if ty = T_uint then V_uint (ucast x) else V_uint64 x)"

text \<open>
  The generic template \<^verbatim>\<open>raw_query_value<T>(idx, val)\<close>: the \<^verbatim>\<open>typeid\<close> chain in the
  source's order. The result is the flag (or the fault), the slot and the connection.
\<close>

definition raw_query_value_generic ::
  "('s, 'r) driver \<Rightarrow> slot_type \<Rightarrow> 32 word \<Rightarrow> slot_val \<Rightarrow> ('s, 'r) connection \<Rightarrow>
   (fault + bool) \<times> slot_val \<times> ('s, 'r) connection" where
  "raw_query_value_generic d ty idx val c =
     (if ty = T_float \<or> ty = T_double then
        (case result_getDouble d idx c of
           (Inl e, c') \<Rightarrow> (Inl e, val, c')
         | (Inr x, c') \<Rightarrow> (Inr True, cast_double ty x, c'))
      else if ty = T_int \<or> ty = T_int64 then
        (case result_getInt64 d idx c of
           (Inl e, c') \<Rightarrow> (Inl e, val, c')
         | (Inr x, c') \<Rightarrow> (Inr True, cast_int64 ty x, c'))
      else if ty = T_uint \<or> ty = T_uint64 then
        (case result_getUInt64 d idx c of
           (Inl e, c') \<Rightarrow> (Inl e, val, c')
         | (Inr x, c') \<Rightarrow> (Inr True, cast_uint64 ty x, c'))
      else
        (Inr False, val, log_error [Text ''Unsupported type: '', Type_name ty] c))"

text \<open>
  The specialisation for \<^verbatim>\<open>std::string\<close>. The index goes through
  \<^verbatim>\<open>static_cast<int32_t>\<close> and back to the accessor's \<^verbatim>\<open>uint32_t\<close> parameter: the
  same 32 bits.
\<close>

definition raw_query_value_string ::
  "('s, 'r) driver \<Rightarrow> 32 word \<Rightarrow> slot_val \<Rightarrow> ('s, 'r) connection \<Rightarrow>
   (fault + bool) \<times> slot_val \<times> ('s, 'r) connection" where
  "raw_query_value_string d idx val c =
     (case result_getString d idx c of
        (Inl e, c') \<Rightarrow> (Inl e, val, c')
      | (Inr s, c') \<Rightarrow> (Inr True, V_string s, c'))"

text \<open>Which of the two a call with slot type \<open>ty\<close> instantiates.\<close>

definition raw_query_value ::
  "('s, 'r) driver \<Rightarrow> slot_type \<Rightarrow> 32 word \<Rightarrow> slot_val \<Rightarrow> ('s, 'r) connection \<Rightarrow>
   (fault + bool) \<times> slot_val \<times> ('s, 'r) connection" where
  "raw_query_value d ty idx val c =
     (if ty = T_string then raw_query_value_string d idx val c
      else raw_query_value_generic d ty idx val c)"

definition supported :: "slot_type \<Rightarrow> bool" where
  "supported ty \<longleftrightarrow> ty \<in> {T_float, T_double, T_int, T_int64, T_uint, T_uint64, T_string}"

section \<open>The result binder: several slots\<close>

text \<open>
  The variadic overload \<^verbatim>\<open>raw_query_value(idx, val, rest ...)\<close>. A slot is its
  type with its content; the pack is its first slot and the list of the others, so the
  empty pack, which does not compile, has no counterpart. With no slot left after the
  first, overload resolution takes the one-slot template. The flag of the first slot's
  call is not looked at; an exception leaves through the call.
\<close>

type_synonym slot = "slot_type \<times> slot_val"

fun raw_query_value_pack ::
  "('s, 'r) driver \<Rightarrow> 32 word \<Rightarrow> slot \<Rightarrow> slot list \<Rightarrow> ('s, 'r) connection \<Rightarrow>
   (fault + bool) \<times> slot list \<times> ('s, 'r) connection" where
  "raw_query_value_pack d idx s [] c =
     (case raw_query_value d (fst s) idx (snd s) c of
        (r, v, c') \<Rightarrow> (r, [(fst s, v)], c'))"
| "raw_query_value_pack d idx s (s' # rest) c =
     (case raw_query_value d (fst s) idx (snd s) c of
        (Inl e, v, c') \<Rightarrow> (Inl e, (fst s, v) # s' # rest, c')
      | (Inr _, v, c') \<Rightarrow>
          (case raw_query_value_pack d (idx + 1) s' rest c' of
             (r, vs, c'') \<Rightarrow> (r, (fst s, v) # vs, c'')))"

section \<open>Executing a query\<close>

text \<open>Sequencing of steps on the connection: a fault ends the sequence.\<close>

definition and_then ::
  "('c \<Rightarrow> (fault + 'a) \<times> 'c) \<Rightarrow> ('a \<Rightarrow> 'c \<Rightarrow> (fault + 'b) \<times> 'c) \<Rightarrow> 'c \<Rightarrow> (fault + 'b) \<times> 'c" where
  "and_then m f c = (case m c of (Inl e, c') \<Rightarrow> (Inl e, c') | (Inr x, c') \<Rightarrow> f x c')"

definition ret :: "'a \<Rightarrow> 'c \<Rightarrow> (fault + 'a) \<times> 'c" where
  "ret x c = (Inr x, c)"

text \<open>
  The first four statements of each of the three methods (lines 129--133, 166--170,
  213--217): the liveness check, the reconnect, the dispatch of the statement, and the
  reset of \<^verbatim>\<open>result_\<close> to the new result set. What \<^verbatim>\<open>reconnect\<close> and
  \<^verbatim>\<open>execute\<close> return is dropped, as in the source.
\<close>

definition run_query ::
  "('s, 'r) driver \<Rightarrow> string \<Rightarrow> ('s, 'r) connection \<Rightarrow> (fault + unit) \<times> ('s, 'r) connection" where
  "run_query d sql =
     and_then (conn_isValid d) (\<lambda>valid.
     and_then (if \<not> valid then and_then (conn_reconnect d) (\<lambda>_. ret ()) else ret ()) (\<lambda>_.
     and_then (stmt_execute d sql) (\<lambda>_.
     and_then (stmt_getResultSet d) (\<lambda>p c.
       (Inr (), c\<lparr>result := map_option fresh_result p\<rparr>)))))"

text \<open>
  The statements that \<^verbatim>\<open>execute_query_value\<close> and \<^verbatim>\<open>execute_query_values\<close> share up
  to \<^verbatim>\<open>result_->next()\<close> (lines 166--180, 213--227). \<open>Inr True\<close>: the cursor is on a
  row and the extraction follows; \<open>Inr False\<close>: the method returns \<^verbatim>\<open>false\<close>.
\<close>

definition single_row ::
  "('s, 'r) driver \<Rightarrow> string \<Rightarrow> ('s, 'r) connection \<Rightarrow> (fault + bool) \<times> ('s, 'r) connection" where
  "single_row d sql =
     and_then (run_query d sql) (\<lambda>_.
     and_then result_rowsCount (\<lambda>n.
       if n = 0 then ret False
       else and_then result_rowsCount (\<lambda>m.
         if m \<noteq> 1 then
           and_then result_rowsCount (\<lambda>k c.
             (Inr False, log_error [Text ''Error rows count:'', Count k] c))
         else result_next)))"

text \<open>The \<^verbatim>\<open>catch (sql::SQLException &e)\<close> clause: four log lines and \<^verbatim>\<open>false\<close>.\<close>

definition catch_SQLException ::
  "string \<Rightarrow> (fault + bool) \<times> 'o \<times> ('s, 'r) connection \<Rightarrow>
   (fault + bool) \<times> 'o \<times> ('s, 'r) connection" where
  "catch_SQLException sql r =
     (case r of
        (Inl (Thrown e), out, c) \<Rightarrow>
          (Inr False, out,
           log_error [Text '', SQLState: '', Text (getSQLState e), Text '' )'']
             (log_error [Text '' (MySQL error code: '', Code (getErrorCode e)]
                (log_error [Text ''# ERR: '', Text (what e)]
                   (log_error [Text '' STMT: '', Text sql] c))))
      | _ \<Rightarrow> r)"

definition execute_query_value_try ::
  "('s, 'r) driver \<Rightarrow> string \<Rightarrow> slot_type \<Rightarrow> slot_val \<Rightarrow> ('s, 'r) connection \<Rightarrow>
   (fault + bool) \<times> slot_val \<times> ('s, 'r) connection" where
  "execute_query_value_try d sql ty val c =
     (case single_row d sql c of
        (Inl e, c') \<Rightarrow> (Inl e, val, c')
      | (Inr on_row, c') \<Rightarrow>
          if on_row then raw_query_value d ty 1 val c' else (Inr False, val, c'))"

definition execute_query_value ::
  "('s, 'r) driver \<Rightarrow> string \<Rightarrow> slot_type \<Rightarrow> slot_val \<Rightarrow> ('s, 'r) connection \<Rightarrow>
   (fault + bool) \<times> slot_val \<times> ('s, 'r) connection" where
  "execute_query_value d sql ty val c =
     catch_SQLException sql (execute_query_value_try d sql ty val c)"

definition execute_query_values_try ::
  "('s, 'r) driver \<Rightarrow> string \<Rightarrow> slot \<Rightarrow> slot list \<Rightarrow> ('s, 'r) connection \<Rightarrow>
   (fault + bool) \<times> slot list \<times> ('s, 'r) connection" where
  "execute_query_values_try d sql s rest c =
     (case single_row d sql c of
        (Inl e, c') \<Rightarrow> (Inl e, s # rest, c')
      | (Inr on_row, c') \<Rightarrow>
          if on_row then raw_query_value_pack d 1 s rest c' else (Inr False, s # rest, c'))"

definition execute_query_values ::
  "('s, 'r) driver \<Rightarrow> string \<Rightarrow> slot \<Rightarrow> slot list \<Rightarrow> ('s, 'r) connection \<Rightarrow>
   (fault + bool) \<times> slot list \<times> ('s, 'r) connection" where
  "execute_query_values d sql s rest c =
     catch_SQLException sql (execute_query_values_try d sql s rest c)"

section \<open>The loop of \<^verbatim>\<open>execute_query_column\<close>\<close>

text \<open>
  \<^verbatim>\<open>while (result_->next())\<close> ends because the cursor moves forward and the
  extraction leaves \<^verbatim>\<open>result_\<close> alone: the rows not yet visited are the measure.
\<close>

lemma result_raw_query_value:
  "raw_query_value d ty idx val c = (r, v, c') \<Longrightarrow> result c' = result c"
  by (auto simp: raw_query_value_def raw_query_value_string_def raw_query_value_generic_def
      result_getString_def result_getDouble_def result_getInt64_def result_getUInt64_def
      called_def log_error_def split: option.splits sum.splits if_splits prod.splits)

definition remaining :: "('s, 'r) connection \<Rightarrow> nat" where
  "remaining c = (case result c of None \<Rightarrow> 0 | Some rs \<Rightarrow> Suc (length (rows rs)) - cursor rs)"

lemma remaining_result_next:
  "result_next c = (Inr True, c') \<Longrightarrow> remaining c' < remaining c"
  by (auto simp: result_next_def remaining_def called_def advance_def split: option.splits)

lemma remaining_raw_query_value:
  "raw_query_value d ty idx val c = (r, v, c') \<Longrightarrow> remaining c' = remaining c"
  by (simp add: remaining_def result_raw_query_value)

lemma loop_decreases:
  "result_next c = (Inr True, c1) \<Longrightarrow> raw_query_value d ty idx val c1 = (r, v, c2) \<Longrightarrow>
   remaining c2 < remaining c"
  using remaining_result_next [of c c1] remaining_raw_query_value [of d ty idx val c1 r v c2]
  by simp

text \<open>
  The loop, with the locals \<^verbatim>\<open>r_val\<close>, \<^verbatim>\<open>vec\<close> and \<^verbatim>\<open>ret_flag\<close>. An
  exception leaves the loop with the vector as it stands.
\<close>

function column_loop ::
  "('s, 'r) driver \<Rightarrow> slot_type \<Rightarrow> slot_val \<Rightarrow> slot_val list \<Rightarrow> bool \<Rightarrow> ('s, 'r) connection \<Rightarrow>
   (fault + bool) \<times> slot_val list \<times> ('s, 'r) connection" where
  "column_loop d ty r_val vec ret_flag c =
     (case result_next c of
        (Inl e, c1) \<Rightarrow> (Inl e, vec, c1)
      | (Inr on_row, c1) \<Rightarrow>
          if on_row then
            (case raw_query_value d ty 1 r_val c1 of
               (Inl e, v, c2) \<Rightarrow> (Inl e, vec, c2)
             | (Inr ok, v, c2) \<Rightarrow>
                 if ok then column_loop d ty v (vec @ [v]) True c2
                 else column_loop d ty v vec ret_flag c2)
          else (Inr ret_flag, vec, c1))"
  by pat_completeness auto
termination
  apply (relation "measure (\<lambda>(d, ty, r_val, vec, ret_flag, c). remaining c)")
    apply simp
   apply (auto dest!: sym [of "(_, _)" "result_next _"] sym [of "(_, _)" "raw_query_value _ _ _ _ _"]
      intro: loop_decreases)
  done

declare column_loop.simps [simp del]

text \<open>
  \<^verbatim>\<open>T r_val;\<close> is not initialised: its first content is the parameter \<open>r_init\<close>.
  \<^verbatim>\<open>vec.clear()\<close> comes after the test for an empty result set.
\<close>

definition execute_query_column_try ::
  "('s, 'r) driver \<Rightarrow> string \<Rightarrow> slot_type \<Rightarrow> slot_val \<Rightarrow> slot_val list \<Rightarrow> ('s, 'r) connection \<Rightarrow>
   (fault + bool) \<times> slot_val list \<times> ('s, 'r) connection" where
  "execute_query_column_try d sql ty r_init vec c =
     (case run_query d sql c of
        (Inl e, c1) \<Rightarrow> (Inl e, vec, c1)
      | (Inr _, c1) \<Rightarrow>
          (case result_rowsCount c1 of
             (Inl e, c2) \<Rightarrow> (Inl e, vec, c2)
           | (Inr n, c2) \<Rightarrow>
               if n = 0 then (Inr False, vec, c2)
               else column_loop d ty r_init [] False c2))"

definition execute_query_column ::
  "('s, 'r) driver \<Rightarrow> string \<Rightarrow> slot_type \<Rightarrow> slot_val \<Rightarrow> slot_val list \<Rightarrow> ('s, 'r) connection \<Rightarrow>
   (fault + bool) \<times> slot_val list \<times> ('s, 'r) connection" where
  "execute_query_column d sql ty r_init vec c =
     catch_SQLException sql (execute_query_column_try d sql ty r_init vec c)"

section \<open>Reading aids\<close>

text \<open>
  What the accessor of a supported slot type gives at a row and a column, already cast to
  the slot type, and which native call that is. Both only restate the branches of the
  binder, for use in the statements below.
\<close>

definition accessor_value ::
  "('s, 'r) driver \<Rightarrow> slot_type \<Rightarrow> 'r option \<Rightarrow> 32 word \<Rightarrow> sql_exception + slot_val" where
  "accessor_value d ty row idx =
     (if ty = T_string then map_sum id V_string (getString d row idx)
      else if ty = T_float \<or> ty = T_double then map_sum id (cast_double ty) (getDouble d row idx)
      else if ty = T_int \<or> ty = T_int64 then map_sum id (cast_int64 ty) (getInt64 d row idx)
      else map_sum id (cast_uint64 ty) (getUInt64 d row idx))"

definition accessor_call :: "slot_type \<Rightarrow> 32 word \<Rightarrow> call" where
  "accessor_call ty idx =
     (if ty = T_string then Call_getString idx
      else if ty = T_float \<or> ty = T_double then Call_getDouble idx
      else if ty = T_int \<or> ty = T_int64 then Call_getInt64 idx
      else Call_getUInt64 idx)"

text \<open>The four lines that the \<^verbatim>\<open>catch\<close> clause logs.\<close>

definition exception_lines :: "string \<Rightarrow> sql_exception \<Rightarrow> log_item list list" where
  "exception_lines sql e =
     [[Text '' STMT: '', Text sql],
      [Text ''# ERR: '', Text (what e)],
      [Text '' (MySQL error code: '', Code (getErrorCode e)],
      [Text '', SQLState: '', Text (getSQLState e), Text '' )'']]"

text \<open>
  The state in which the extraction starts when the result set is the one row \<open>r\<close>:
  two \<^verbatim>\<open>rowsCount\<close> calls and one \<^verbatim>\<open>next\<close> after the state \<open>c1\<close> that
  \<open>run_query\<close> left.
\<close>

definition on_first_row :: "('s, 'r) connection \<Rightarrow> 'r \<Rightarrow> ('s, 'r) connection" where
  "on_first_row c1 r =
     called Call_next
       ((called Call_rowsCount (called Call_rowsCount c1))
          \<lparr>result := Some (advance (fresh_result [r]))\<rparr>)"

text \<open>
  The tail of \<open>run_query\<close>, from the dispatch of the statement on: what follows the
  liveness check and the reconnect.
\<close>

definition dispatch ::
  "('s, 'r) driver \<Rightarrow> string \<Rightarrow> ('s, 'r) connection \<Rightarrow> (fault + unit) \<times> ('s, 'r) connection" where
  "dispatch d sql =
     and_then (stmt_execute d sql) (\<lambda>_.
     and_then (stmt_getResultSet d) (\<lambda>p c.
       (Inr (), c\<lparr>result := map_option fresh_result p\<rparr>)))"

section \<open>A driver to run the methods on\<close>

text \<open>
  A small strict driver for the concrete runs: a cell is a text with the number it
  parses to, if any, as the 64 bits that the numeric accessors give (an integer for the
  integer accessors, the bit pattern of the double for the double accessor). The numeric
  accessors throw on a text that is no number, every accessor throws off a row and on a
  column index outside the row.
\<close>

datatype cell = Cell (cell_text: string) (cell_number: "64 word option")

definition not_on_a_row :: sql_exception where
  "not_on_a_row = SQLException ''not on a row'' 0 ''HY109''"

definition no_such_column :: sql_exception where
  "no_such_column = SQLException ''invalid column index'' 0 ''S1009''"

definition not_a_number :: sql_exception where
  "not_a_number = SQLException ''not a number'' 0 ''22018''"

definition demo_column :: "cell list option \<Rightarrow> 32 word \<Rightarrow> sql_exception + cell" where
  "demo_column row idx =
     (case row of
        None \<Rightarrow> Inl not_on_a_row
      | Some r \<Rightarrow>
          if idx = 0 \<or> length r < unat idx then Inl no_such_column
          else Inr (r ! (unat idx - 1)))"

definition demo_number :: "cell list option \<Rightarrow> 32 word \<Rightarrow> sql_exception + 64 word" where
  "demo_number row idx =
     (case demo_column row idx of
        Inl e \<Rightarrow> Inl e
      | Inr x \<Rightarrow>
          (case cell_number x of
             None \<Rightarrow> Inl not_a_number
           | Some n \<Rightarrow> Inr n))"

definition demo_text :: "cell list option \<Rightarrow> 32 word \<Rightarrow> sql_exception + string" where
  "demo_text row idx = (case demo_column row idx of Inl e \<Rightarrow> Inl e | Inr x \<Rightarrow> Inr (cell_text x))"

definition demo :: "cell list list \<Rightarrow> (bool, cell list) driver" where
  "demo table =
     \<lparr>isValid = (\<lambda>s. (Inr s, s)),
      reconnect = (\<lambda>s. (Inr True, True)),
      execute = (\<lambda>sql s. (Inr True, s)),
      getResultSet = (\<lambda>s. (Inr (Some table), s)),
      getDouble = demo_number, getInt64 = demo_number, getUInt64 = demo_number,
      getString = demo_text\<rparr>"

definition idle :: "'s \<Rightarrow> ('s, 'r) connection" where
  "idle s = \<lparr>conn = s, result = None, logged = [], calls = []\<rparr>"

definition demo_at :: "cell list list \<Rightarrow> nat \<Rightarrow> (bool, cell list) connection" where
  "demo_at table k =
     \<lparr>conn = True, result = Some \<lparr>rows = table, cursor = k\<rparr>, logged = [], calls = []\<rparr>"

definition demo_ran :: "cell list list \<Rightarrow> string \<Rightarrow> (bool, cell list) connection" where
  "demo_ran table sql =
     \<lparr>conn = True, result = Some \<lparr>rows = table, cursor = 0\<rparr>, logged = [],
      calls = [Call_isValid, Call_execute sql, Call_getResultSet]\<rparr>"

definition syntax_error :: sql_exception where
  "syntax_error = SQLException ''You have an error in your SQL syntax'' 1064 ''42000''"

definition host_unreachable :: sql_exception where
  "host_unreachable = SQLException ''Cannot connect to MySQL server'' 2003 ''HY000''"

definition demo_bad_sql :: "(bool, cell list) driver" where
  "demo_bad_sql = (demo [])\<lparr>execute := (\<lambda>sql s. (Inl syntax_error, s))\<rparr>"

definition demo_unreachable :: "(bool, cell list) driver" where
  "demo_unreachable = (demo [])\<lparr>reconnect := (\<lambda>s. (Inl host_unreachable, s))\<rparr>"

definition demo_stopped :: "bool \<Rightarrow> call list \<Rightarrow> (bool, cell list) connection" where
  "demo_stopped s ks = \<lparr>conn = s, result = None, logged = [], calls = ks\<rparr>"

section \<open>The calls a method makes\<close>

text \<open>
  The native calls that read the current result set, the calls made between two states,
  and the two orders of calls that the statements below are about.
\<close>

fun is_read :: "call \<Rightarrow> bool" where
  "is_read Call_rowsCount = True"
| "is_read Call_next = True"
| "is_read (Call_getDouble _) = True"
| "is_read (Call_getInt64 _) = True"
| "is_read (Call_getUInt64 _) = True"
| "is_read (Call_getString _) = True"
| "is_read _ = False"

definition trace :: "('s, 'r) connection \<Rightarrow> ('s, 'r) connection \<Rightarrow> call list" where
  "trace c c' = drop (length (calls c)) (calls c')"

definition only_reads :: "('s, 'r) connection \<Rightarrow> ('s, 'r) connection \<Rightarrow> bool" where
  "only_reads c c' \<longleftrightarrow>
     (\<exists>ks. calls c' = calls c @ ks \<and> list_all is_read ks) \<and>
     map_option rows (result c') = map_option rows (result c) \<and> conn c' = conn c"

text \<open>
  The order of the liveness check, the reconnect and the dispatch within the calls of a
  method that ran from \<open>c\<close> to \<open>c'\<close> and returned \<open>flag\<close>.
\<close>

definition reconnect_protocol ::
  "('s, 'r) driver \<Rightarrow> string \<Rightarrow> ('s, 'r) connection \<Rightarrow> fault + bool \<Rightarrow> ('s, 'r) connection \<Rightarrow> bool" where
  "reconnect_protocol d sql c flag c' \<longleftrightarrow>
     take (length (calls c)) (calls c') = calls c \<and>
     take 1 (trace c c') = [Call_isValid] \<and>
     count_list (trace c c') Call_isValid = 1 \<and>
     (case isValid d (conn c) of
        (Inl e, s1) \<Rightarrow> trace c c' = [Call_isValid] \<and> flag = Inr False
      | (Inr True, s1) \<Rightarrow>
          take 2 (trace c c') = [Call_isValid, Call_execute sql] \<and>
          count_list (trace c c') Call_reconnect = 0 \<and>
          count_list (trace c c') (Call_execute sql) = 1
      | (Inr False, s1) \<Rightarrow>
          take 2 (trace c c') = [Call_isValid, Call_reconnect] \<and>
          count_list (trace c c') Call_reconnect = 1 \<and>
          (case reconnect d s1 of
             (Inl e, s2) \<Rightarrow> trace c c' = [Call_isValid, Call_reconnect] \<and> flag = Inr False
           | (Inr b, s2) \<Rightarrow>
               take 3 (trace c c') = [Call_isValid, Call_reconnect, Call_execute sql] \<and>
               count_list (trace c c') (Call_execute sql) = 1))"

text \<open>
  The reset of \<^verbatim>\<open>result_\<close> against the reads, for a method that ran from \<open>c\<close> to
  \<open>c'\<close>: the calls up to the reset read nothing; what follows only reads, and leaves
  the rows of the handle alone; when the statement was not dispatched or its result set
  not fetched, nothing is read at all and the old handle stays; otherwise the handle was
  reset to a result set with its cursor before the first row, right after the fetch.
\<close>

definition reset_before_read ::
  "('s, 'r) driver \<Rightarrow> string \<Rightarrow> ('s, 'r) connection \<Rightarrow> ('s, 'r) connection \<Rightarrow> bool" where
  "reset_before_read d sql c c' \<longleftrightarrow>
     (case run_query d sql c of
        (y, c1) \<Rightarrow>
          take (length (calls c)) (calls c1) = calls c \<and>
          \<not> list_ex is_read (trace c c1) \<and>
          take (length (calls c1)) (calls c') = calls c1 \<and>
          list_all is_read (trace c1 c') \<and>
          map_option rows (result c') = map_option rows (result c1) \<and>
          (case y of
             Inl e \<Rightarrow> trace c1 c' = [] \<and> result c1 = result c
           | Inr u \<Rightarrow>
               (case result c1 of None \<Rightarrow> True | Some rs \<Rightarrow> cursor rs = 0) \<and>
               trace c c1 \<noteq> [] \<and> last (trace c c1) = Call_getResultSet))"

definition demo_flaky :: "cell list list \<Rightarrow> (bool, cell list) driver" where
  "demo_flaky table = (demo table)\<lparr>reconnect := (\<lambda>s. (Inr False, s))\<rparr>"

definition demo_stale :: "(bool, cell list) connection" where
  "demo_stale =
     \<lparr>conn = True, result = Some \<lparr>rows = [[Cell ''old'' None]], cursor = 1\<rparr>, logged = [],
      calls = []\<rparr>"

text \<open>
  The loop of \<^verbatim>\<open>execute_query_column\<close> seen from the rows still to visit: the flag
  (or the exception that ends the loop) and the vector. It is proved equal to the loop
  below and only serves the proofs.
\<close>

fun scan ::
  "('s, 'r) driver \<Rightarrow> slot_type \<Rightarrow> 'r list \<Rightarrow> slot_val list \<Rightarrow> bool \<Rightarrow>
   (fault + bool) \<times> slot_val list" where
  "scan d ty [] vec flag = (Inr flag, vec)"
| "scan d ty (r # rs) vec flag =
     (if supported ty then
        (case accessor_value d ty (Some r) 1 of
           Inl e \<Rightarrow> (Inl (Thrown e), vec)
         | Inr v \<Rightarrow> scan d ty rs (vec @ [v]) True)
      else scan d ty rs vec flag)"

text \<open>Rows and values for the concrete runs.\<close>

definition demo_pair :: "cell list" where
  "demo_pair =
     [Cell ''0.1'' (Some 0x3FB999999999999A), Cell ''4294967301'' (Some 4294967301)]"

definition demo_row :: "cell list" where
  "demo_row = [Cell ''7'' (Some 7), Cell ''8'' (Some 8), Cell ''x'' None]"

definition demo_f :: "nat \<Rightarrow> slot_val" where
  "demo_f j = [V_int64 7, V_uint 8, V_string ''x''] ! j"

definition demo_texts :: "nat \<Rightarrow> string" where
  "demo_texts j = [''7'', ''8'', ''x''] ! j"

definition demo_int64 :: "cell list \<Rightarrow> slot_val" where
  "demo_int64 r = (case cell_number (hd r) of None \<Rightarrow> V_int64 0 | Some n \<Rightarrow> V_int64 n)"

definition demo_mixed :: "cell list list" where
  "demo_mixed = [[Cell ''7'' (Some 7)], [Cell ''n/a'' None]]"

definition demo_numbers :: "cell list list" where
  "demo_numbers = [[Cell ''7'' (Some 7)], [Cell ''8'' (Some 8)]]"

section \<open>Basic facts\<close>

lemma called_simps [simp]:
  "conn (called k c) = conn c" "result (called k c) = result c"
  "logged (called k c) = logged c" "calls (called k c) = calls c @ [k]"
  by (simp_all add: called_def)

lemma log_error_simps [simp]:
  "conn (log_error l c) = conn c" "result (log_error l c) = result c"
  "logged (log_error l c) = logged c @ [l]" "calls (log_error l c) = calls c"
  by (simp_all add: log_error_def)

text \<open>
  The narrowing cast on known values: 0.1, 1, 7, -2.5 and \<open>\<pi>\<close>; two ties, to the even
  neighbour below and above; the largest float and the first double that rounds to
  infinity; the least subnormal float, the tie below it and the double just above that
  tie; a double with the bits of the integer 7, far below every float.
\<close>

lemma float_of_double_examples:
  "float_of_double 0x3FB999999999999A = 0x3DCCCCCD"
  "float_of_double 0x3FF0000000000000 = 0x3F800000"
  "float_of_double 0x401C000000000000 = 0x40E00000"
  "float_of_double 0xC004000000000000 = 0xC0200000"
  "float_of_double 0x400921FB54442D18 = 0x40490FDB"
  "float_of_double 0x3FF0000010000000 = 0x3F800000"
  "float_of_double 0x3FF0000030000000 = 0x3F800002"
  "float_of_double 0x47EFFFFFE0000000 = 0x7F7FFFFF"
  "float_of_double 0x47EFFFFFF0000000 = 0x7F800000"
  "float_of_double 0x36A0000000000000 = 0x00000001"
  "float_of_double 0x3690000000000000 = 0x00000000"
  "float_of_double 0x3690000000000001 = 0x00000001"
  "float_of_double 7 = 0"
  by (simp_all add: float_of_double_def round_shift_def Let_def)

lemma supported_cases:
  "supported ty \<longleftrightarrow> (\<forall>n. ty \<noteq> T_other n)"
  by (cases ty) (simp_all add: supported_def)

lemmas steps = conn_isValid_def conn_reconnect_def stmt_execute_def stmt_getResultSet_def
  result_rowsCount_def result_next_def result_getString_def result_getDouble_def
  result_getInt64_def result_getUInt64_def lift_def called_def log_error_def
  and_then_def ret_def run_query_def single_row_def catch_SQLException_def
  raw_query_value_def raw_query_value_string_def raw_query_value_generic_def
  cast_double_def cast_int64_def cast_uint64_def fresh_result_def current_row_def advance_def

lemmas demos = demo_def demo_column_def demo_number_def demo_text_def idle_def demo_at_def
  not_on_a_row_def no_such_column_def not_a_number_def

lemma raw_query_value_supported:
  assumes "result c = Some rs" "supported ty"
  shows "raw_query_value d ty idx val c =
    (case accessor_value d ty (current_row rs) idx of
       Inl e \<Rightarrow> (Inl (Thrown e), val, called (accessor_call ty idx) c)
     | Inr v \<Rightarrow> (Inr True, v, called (accessor_call ty idx) c))"
  using assms
  by (cases ty)
    (simp_all add: supported_def raw_query_value_def raw_query_value_string_def
      raw_query_value_generic_def accessor_value_def accessor_call_def
      result_getString_def result_getDouble_def result_getInt64_def result_getUInt64_def
      lift_def split: sum.splits)

lemma raw_query_value_other:
  "raw_query_value d (T_other n) idx val c =
     (Inr False, val, log_error [Text ''Unsupported type: '', Type_name (T_other n)] c)"
  by (simp add: raw_query_value_def raw_query_value_generic_def)

section \<open>One slot\<close>

text \<open>
  Claim C6. For a slot type outside the supported set, the one-slot extraction returns
  \<^verbatim>\<open>false\<close> and logs the type's name. It raises nothing, it leaves the slot as it
  was, and it makes no native call: only the log of the connection grows. This holds in
  every state, also with a null \<^verbatim>\<open>result_\<close>.
\<close>

theorem unsupported_type_fails:
  "\<not> supported ty \<Longrightarrow>
   raw_query_value d ty idx val c =
     (Inr False, val, log_error [Text ''Unsupported type: '', Type_name ty] c)"
  by (cases ty) (simp_all add: supported_def raw_query_value_other)

theorem unsupported_type_fails_witness:
  "\<not> supported (T_other ''s'') \<and>
   raw_query_value (demo []) (T_other ''s'') 1 (V_other 5) (idle True) =
     (Inr False, V_other 5,
      \<lparr>conn = True, result = None,
       logged = [[Text ''Unsupported type: '', Type_name (T_other ''s'')]], calls = []\<rparr>)"
  using unsupported_type_fails [of "T_other ''s''" "demo []" 1 "V_other 5" "idle True"]
  by (simp add: supported_def log_error_def idle_def)

text \<open>
  Claim C7, as amended. The one-slot extraction of a supported type calls the accessor
  of its family once, at the given column index, and makes no other native call: the
  double accessor for \<^verbatim>\<open>float\<close> and \<^verbatim>\<open>double\<close>, the signed 64-bit accessor for
  \<^verbatim>\<open>int\<close> and \<^verbatim>\<open>int64_t\<close>, the unsigned 64-bit accessor for \<^verbatim>\<open>unsigned int\<close>
  and \<^verbatim>\<open>uint64_t\<close>, the string accessor for \<^verbatim>\<open>std::string\<close>. When the accessor
  returns, the extraction returns \<^verbatim>\<open>true\<close> with the slot holding the accessor's
  result cast to the slot type: rounded to the nearest \<^verbatim>\<open>float\<close>, cut to the low 32
  bits for \<^verbatim>\<open>int\<close> and \<^verbatim>\<open>unsigned int\<close>, as it is for the others. When the accessor
  raises, the exception leaves through the extraction and the slot is as it was. The
  extraction of a supported type never returns \<^verbatim>\<open>false\<close>; on a null \<^verbatim>\<open>result_\<close>
  it calls nothing and stops at the null handle.
\<close>

theorem accessor_family:
  "(result c = Some rs \<and> getDouble d (current_row rs) idx = Inr x \<longrightarrow>
      raw_query_value d T_float idx val c =
        (Inr True, V_float (float_of_double x), called (Call_getDouble idx) c) \<and>
      raw_query_value d T_double idx val c =
        (Inr True, V_double x, called (Call_getDouble idx) c)) \<and>
   (result c = Some rs \<and> getInt64 d (current_row rs) idx = Inr i \<longrightarrow>
      raw_query_value d T_int idx val c =
        (Inr True, V_int (ucast i), called (Call_getInt64 idx) c) \<and>
      raw_query_value d T_int64 idx val c =
        (Inr True, V_int64 i, called (Call_getInt64 idx) c)) \<and>
   (result c = Some rs \<and> getUInt64 d (current_row rs) idx = Inr u \<longrightarrow>
      raw_query_value d T_uint idx val c =
        (Inr True, V_uint (ucast u), called (Call_getUInt64 idx) c) \<and>
      raw_query_value d T_uint64 idx val c =
        (Inr True, V_uint64 u, called (Call_getUInt64 idx) c)) \<and>
   (result c = Some rs \<and> getString d (current_row rs) idx = Inr s \<longrightarrow>
      raw_query_value d T_string idx val c =
        (Inr True, V_string s, called (Call_getString idx) c)) \<and>
   (result c = Some rs \<and> getDouble d (current_row rs) idx = Inl e \<longrightarrow>
      raw_query_value d T_float idx val c =
        (Inl (Thrown e), val, called (Call_getDouble idx) c) \<and>
      raw_query_value d T_double idx val c =
        (Inl (Thrown e), val, called (Call_getDouble idx) c)) \<and>
   (result c = Some rs \<and> getInt64 d (current_row rs) idx = Inl e \<longrightarrow>
      raw_query_value d T_int idx val c =
        (Inl (Thrown e), val, called (Call_getInt64 idx) c) \<and>
      raw_query_value d T_int64 idx val c =
        (Inl (Thrown e), val, called (Call_getInt64 idx) c)) \<and>
   (result c = Some rs \<and> getUInt64 d (current_row rs) idx = Inl e \<longrightarrow>
      raw_query_value d T_uint idx val c =
        (Inl (Thrown e), val, called (Call_getUInt64 idx) c) \<and>
      raw_query_value d T_uint64 idx val c =
        (Inl (Thrown e), val, called (Call_getUInt64 idx) c)) \<and>
   (result c = Some rs \<and> getString d (current_row rs) idx = Inl e \<longrightarrow>
      raw_query_value d T_string idx val c =
        (Inl (Thrown e), val, called (Call_getString idx) c)) \<and>
   (supported ty \<longrightarrow> fst (raw_query_value d ty idx val c) \<noteq> Inr False) \<and>
   (supported ty \<and> result c = None \<longrightarrow>
      raw_query_value d ty idx val c = (Inl Null_deref, val, c))"
proof -
  note defs = raw_query_value_def raw_query_value_string_def raw_query_value_generic_def
    cast_double_def cast_int64_def cast_uint64_def result_getString_def
    result_getDouble_def result_getInt64_def result_getUInt64_def lift_def
  have returns: "(result c = Some rs \<and> getDouble d (current_row rs) idx = Inr x \<longrightarrow>
      raw_query_value d T_float idx val c =
        (Inr True, V_float (float_of_double x), called (Call_getDouble idx) c) \<and>
      raw_query_value d T_double idx val c =
        (Inr True, V_double x, called (Call_getDouble idx) c)) \<and>
   (result c = Some rs \<and> getInt64 d (current_row rs) idx = Inr i \<longrightarrow>
      raw_query_value d T_int idx val c =
        (Inr True, V_int (ucast i), called (Call_getInt64 idx) c) \<and>
      raw_query_value d T_int64 idx val c =
        (Inr True, V_int64 i, called (Call_getInt64 idx) c)) \<and>
   (result c = Some rs \<and> getUInt64 d (current_row rs) idx = Inr u \<longrightarrow>
      raw_query_value d T_uint idx val c =
        (Inr True, V_uint (ucast u), called (Call_getUInt64 idx) c) \<and>
      raw_query_value d T_uint64 idx val c =
        (Inr True, V_uint64 u, called (Call_getUInt64 idx) c)) \<and>
   (result c = Some rs \<and> getString d (current_row rs) idx = Inr s \<longrightarrow>
      raw_query_value d T_string idx val c =
        (Inr True, V_string s, called (Call_getString idx) c))"
    by (simp add: defs)
  have raises: "(result c = Some rs \<and> getDouble d (current_row rs) idx = Inl e \<longrightarrow>
      raw_query_value d T_float idx val c =
        (Inl (Thrown e), val, called (Call_getDouble idx) c) \<and>
      raw_query_value d T_double idx val c =
        (Inl (Thrown e), val, called (Call_getDouble idx) c)) \<and>
   (result c = Some rs \<and> getInt64 d (current_row rs) idx = Inl e \<longrightarrow>
      raw_query_value d T_int idx val c =
        (Inl (Thrown e), val, called (Call_getInt64 idx) c) \<and>
      raw_query_value d T_int64 idx val c =
        (Inl (Thrown e), val, called (Call_getInt64 idx) c)) \<and>
   (result c = Some rs \<and> getUInt64 d (current_row rs) idx = Inl e \<longrightarrow>
      raw_query_value d T_uint idx val c =
        (Inl (Thrown e), val, called (Call_getUInt64 idx) c) \<and>
      raw_query_value d T_uint64 idx val c =
        (Inl (Thrown e), val, called (Call_getUInt64 idx) c)) \<and>
   (result c = Some rs \<and> getString d (current_row rs) idx = Inl e \<longrightarrow>
      raw_query_value d T_string idx val c =
        (Inl (Thrown e), val, called (Call_getString idx) c))"
    by (simp add: defs)
  have null: "supported ty \<and> result c = None \<longrightarrow>
      raw_query_value d ty idx val c = (Inl Null_deref, val, c)"
    by (cases ty) (simp_all add: supported_def defs)
  have never: "supported ty \<longrightarrow> fst (raw_query_value d ty idx val c) \<noteq> Inr False"
  proof (cases "result c")
    case None
    with null show ?thesis by simp
  next
    case (Some rs')
    from raw_query_value_supported [OF Some, of ty d idx val] show ?thesis
      by (simp split: sum.splits)
  qed
  from returns raises never null show ?thesis by blast
qed

theorem accessor_family_witness:
  "result (demo_at [demo_pair] 1) = Some \<lparr>rows = [demo_pair], cursor = 1\<rparr> \<and>
   getDouble (demo []) (current_row \<lparr>rows = [demo_pair], cursor = 1\<rparr>) 1 =
     Inr 0x3FB999999999999A \<and>
   raw_query_value (demo []) T_float 1 (V_float 0) (demo_at [demo_pair] 1) =
     (Inr True, V_float 0x3DCCCCCD, called (Call_getDouble 1) (demo_at [demo_pair] 1)) \<and>
   raw_query_value (demo []) T_double 1 (V_double 0) (demo_at [demo_pair] 1) =
     (Inr True, V_double 0x3FB999999999999A,
      called (Call_getDouble 1) (demo_at [demo_pair] 1)) \<and>
   getInt64 (demo []) (current_row \<lparr>rows = [demo_pair], cursor = 1\<rparr>) 2 = Inr 4294967301 \<and>
   raw_query_value (demo []) T_int 2 (V_int 0) (demo_at [demo_pair] 1) =
     (Inr True, V_int 5, called (Call_getInt64 2) (demo_at [demo_pair] 1)) \<and>
   raw_query_value (demo []) T_int64 2 (V_int64 0) (demo_at [demo_pair] 1) =
     (Inr True, V_int64 4294967301, called (Call_getInt64 2) (demo_at [demo_pair] 1)) \<and>
   getUInt64 (demo []) (current_row \<lparr>rows = [demo_pair], cursor = 1\<rparr>) 2 = Inr 4294967301 \<and>
   raw_query_value (demo []) T_uint 2 (V_uint 0) (demo_at [demo_pair] 1) =
     (Inr True, V_uint 5, called (Call_getUInt64 2) (demo_at [demo_pair] 1)) \<and>
   raw_query_value (demo []) T_uint64 2 (V_uint64 0) (demo_at [demo_pair] 1) =
     (Inr True, V_uint64 4294967301, called (Call_getUInt64 2) (demo_at [demo_pair] 1)) \<and>
   getString (demo []) (current_row \<lparr>rows = [demo_pair], cursor = 1\<rparr>) 2 =
     Inr ''4294967301'' \<and>
   raw_query_value (demo []) T_string 2 (V_string []) (demo_at [demo_pair] 1) =
     (Inr True, V_string ''4294967301'', called (Call_getString 2) (demo_at [demo_pair] 1)) \<and>
   getDouble (demo []) (current_row \<lparr>rows = [demo_pair], cursor = 1\<rparr>) 3 =
     Inl no_such_column \<and>
   raw_query_value (demo []) T_float 3 (V_float 9) (demo_at [demo_pair] 1) =
     (Inl (Thrown no_such_column), V_float 9,
      called (Call_getDouble 3) (demo_at [demo_pair] 1)) \<and>
   getInt64 (demo []) (current_row \<lparr>rows = [demo_pair], cursor = 1\<rparr>) 3 =
     Inl no_such_column \<and>
   raw_query_value (demo []) T_int 3 (V_int 9) (demo_at [demo_pair] 1) =
     (Inl (Thrown no_such_column), V_int 9,
      called (Call_getInt64 3) (demo_at [demo_pair] 1)) \<and>
   getUInt64 (demo []) (current_row \<lparr>rows = [demo_pair], cursor = 1\<rparr>) 3 =
     Inl no_such_column \<and>
   raw_query_value (demo []) T_uint64 3 (V_uint64 9) (demo_at [demo_pair] 1) =
     (Inl (Thrown no_such_column), V_uint64 9,
      called (Call_getUInt64 3) (demo_at [demo_pair] 1)) \<and>
   getString (demo []) (current_row \<lparr>rows = [demo_pair], cursor = 1\<rparr>) 3 =
     Inl no_such_column \<and>
   raw_query_value (demo []) T_string 3 (V_string ''old'') (demo_at [demo_pair] 1) =
     (Inl (Thrown no_such_column), V_string ''old'',
      called (Call_getString 3) (demo_at [demo_pair] 1)) \<and>
   supported T_double \<and>
   fst (raw_query_value (demo []) T_double 3 (V_double 9) (demo_at [demo_pair] 1)) \<noteq>
     Inr False \<and>
   result (idle True :: (bool, cell list) connection) = None \<and>
   raw_query_value (demo []) T_double 1 (V_double 9) (idle True) =
     (Inl Null_deref, V_double 9, idle True)"
proof -
  let ?rs = "\<lparr>rows = [demo_pair], cursor = 1\<rparr>"
  let ?c = "demo_at [demo_pair] 1"
  have r: "result ?c = Some ?rs" "result (idle True :: (bool, cell list) connection) = None"
    "supported T_double"
    by (simp_all add: demo_at_def idle_def supported_def)
  have g: "getDouble (demo []) (current_row ?rs) 1 = Inr 0x3FB999999999999A"
    "getInt64 (demo []) (current_row ?rs) 2 = Inr 4294967301"
    "getUInt64 (demo []) (current_row ?rs) 2 = Inr 4294967301"
    "getString (demo []) (current_row ?rs) 2 = Inr ''4294967301''"
    "getDouble (demo []) (current_row ?rs) 3 = Inl no_such_column"
    "getInt64 (demo []) (current_row ?rs) 3 = Inl no_such_column"
    "getUInt64 (demo []) (current_row ?rs) 3 = Inl no_such_column"
    "getString (demo []) (current_row ?rs) 3 = Inl no_such_column"
    by (simp_all add: demo_def demo_column_def demo_number_def demo_text_def demo_pair_def
        current_row_def)
  have casts: "float_of_double 0x3FB999999999999A = 0x3DCCCCCD"
    "(ucast (4294967301 :: 64 word) :: 32 word) = 5"
    by (simp_all add: float_of_double_def round_shift_def Let_def)
  note at = accessor_family [where d = "demo []" and c = ?c and rs = ?rs]
  have 1: "raw_query_value (demo []) T_float 1 (V_float 0) ?c =
      (Inr True, V_float (float_of_double 0x3FB999999999999A), called (Call_getDouble 1) ?c)"
    using at [where idx = 1 and val = "V_float 0" and x = "0x3FB999999999999A"] r g by blast
  have 2: "raw_query_value (demo []) T_double 1 (V_double 0) ?c =
      (Inr True, V_double 0x3FB999999999999A, called (Call_getDouble 1) ?c)"
    using at [where idx = 1 and val = "V_double 0" and x = "0x3FB999999999999A"] r g by blast
  have 3: "raw_query_value (demo []) T_int 2 (V_int 0) ?c =
      (Inr True, V_int (ucast (4294967301 :: 64 word)), called (Call_getInt64 2) ?c)"
    using at [where idx = 2 and val = "V_int 0" and i = 4294967301] r g by blast
  have 4: "raw_query_value (demo []) T_int64 2 (V_int64 0) ?c =
      (Inr True, V_int64 4294967301, called (Call_getInt64 2) ?c)"
    using at [where idx = 2 and val = "V_int64 0" and i = 4294967301] r g by blast
  have 5: "raw_query_value (demo []) T_uint 2 (V_uint 0) ?c =
      (Inr True, V_uint (ucast (4294967301 :: 64 word)), called (Call_getUInt64 2) ?c)"
    using at [where idx = 2 and val = "V_uint 0" and u = 4294967301] r g by blast
  have 6: "raw_query_value (demo []) T_uint64 2 (V_uint64 0) ?c =
      (Inr True, V_uint64 4294967301, called (Call_getUInt64 2) ?c)"
    using at [where idx = 2 and val = "V_uint64 0" and u = 4294967301] r g by blast
  have 7: "raw_query_value (demo []) T_string 2 (V_string []) ?c =
      (Inr True, V_string ''4294967301'', called (Call_getString 2) ?c)"
    using at [where idx = 2 and val = "V_string []" and s = "''4294967301''"] r g by blast
  have 8: "raw_query_value (demo []) T_float 3 (V_float 9) ?c =
      (Inl (Thrown no_such_column), V_float 9, called (Call_getDouble 3) ?c)"
    using at [where idx = 3 and val = "V_float 9" and e = no_such_column] r g by blast
  have 9: "raw_query_value (demo []) T_int 3 (V_int 9) ?c =
      (Inl (Thrown no_such_column), V_int 9, called (Call_getInt64 3) ?c)"
    using at [where idx = 3 and val = "V_int 9" and e = no_such_column] r g by blast
  have 10: "raw_query_value (demo []) T_uint64 3 (V_uint64 9) ?c =
      (Inl (Thrown no_such_column), V_uint64 9, called (Call_getUInt64 3) ?c)"
    using at [where idx = 3 and val = "V_uint64 9" and e = no_such_column] r g by blast
  have 11: "raw_query_value (demo []) T_string 3 (V_string ''old'') ?c =
      (Inl (Thrown no_such_column), V_string ''old'', called (Call_getString 3) ?c)"
    using at [where idx = 3 and val = "V_string ''old''" and e = no_such_column] r g by blast
  have 12: "fst (raw_query_value (demo []) T_double 3 (V_double 9) ?c) \<noteq> Inr False"
    using at [where idx = 3 and val = "V_double 9" and ty = T_double] r by blast
  have 13: "raw_query_value (demo []) T_double 1 (V_double 9) (idle True) =
      (Inl Null_deref, V_double 9, idle True)"
    using accessor_family [where d = "demo []" and c = "idle True" and idx = 1
        and val = "V_double 9" and ty = T_double] r
    by blast
  show ?thesis
    using r g casts 1 2 3 4 5 6 7 8 9 10 11 12 13 by simp
qed

text \<open>
  Claim C7, as stated, fails: the accessor raises on a column index outside the row, and
  the extraction of a supported type then ends with the exception, not with
  \<^verbatim>\<open>true\<close>. Here the row has one column and the index is 2.
\<close>

theorem accessor_raises_counterexample:
  "supported T_int64 \<and>
   getInt64 (demo []) (current_row \<lparr>rows = [[Cell ''7'' (Some 7)]], cursor = 1\<rparr>) 2 =
     Inl no_such_column \<and>
   raw_query_value (demo []) T_int64 2 (V_int64 0) (demo_at [[Cell ''7'' (Some 7)]] 1) =
     (Inl (Thrown no_such_column), V_int64 0,
      called (Call_getInt64 2) (demo_at [[Cell ''7'' (Some 7)]] 1)) \<and>
   fst (raw_query_value (demo []) T_int64 2 (V_int64 0) (demo_at [[Cell ''7'' (Some 7)]] 1)) \<noteq>
     Inr True"
  by (simp add: supported_def raw_query_value_def raw_query_value_generic_def
      result_getInt64_def lift_def current_row_def demo_def demo_column_def demo_number_def
      demo_at_def)

section \<open>Facts about the shared statements\<close>

lemma catch_simps [simp]:
  "catch_SQLException sql (Inr b, out, c) = (Inr b, out, c)"
  "catch_SQLException sql (Inl Null_deref, out, c) = (Inl Null_deref, out, c)"
  "catch_SQLException sql (Inl (Thrown e), out, c) =
     (Inr False, out, c\<lparr>logged := logged c @ exception_lines sql e\<rparr>)"
  by (simp_all add: catch_SQLException_def log_error_def exception_lines_def)

lemma fresh_result_simps [simp]:
  "rows (fresh_result rws) = rws" "cursor (fresh_result rws) = 0"
  by (simp_all add: fresh_result_def)

lemma run_query_result:
  assumes "run_query d sql c = (Inr u, c1)"
  shows "\<exists>p. result c1 = map_option fresh_result p"
  using assms
  by (auto simp: run_query_def and_then_def ret_def conn_isValid_def conn_reconnect_def
      stmt_execute_def stmt_getResultSet_def split: prod.splits sum.splits if_splits)

lemma single_row_fault:
  "run_query d sql c = (Inl e, c1) \<Longrightarrow> single_row d sql c = (Inl e, c1)"
  by (simp add: single_row_def and_then_def)

lemma single_row_null:
  "run_query d sql c = (Inr u, c1) \<Longrightarrow> result c1 = None \<Longrightarrow>
   single_row d sql c = (Inl Null_deref, c1)"
  by (simp add: single_row_def and_then_def result_rowsCount_def)

lemma single_row_rows:
  assumes "run_query d sql c = (Inr u, c1)" "result c1 = Some rs"
  shows "single_row d sql c =
     (if length (rows rs) = 0 then (Inr False, called Call_rowsCount c1)
      else if length (rows rs) \<noteq> 1 then
        (Inr False, log_error [Text ''Error rows count:'', Count (length (rows rs))]
           (called Call_rowsCount (called Call_rowsCount (called Call_rowsCount c1))))
      else
        (Inr (cursor rs < length (rows rs)),
         called Call_next
           ((called Call_rowsCount (called Call_rowsCount c1))\<lparr>result := Some (advance rs)\<rparr>)))"
  using assms
  by (simp add: single_row_def and_then_def ret_def result_rowsCount_def result_next_def)

lemma current_row_first [simp]:
  "current_row (advance (fresh_result (r # rws))) = Some r"
  by (simp add: current_row_def advance_def fresh_result_def)

lemma single_row_one:
  assumes "run_query d sql c = (Inr u, c1)" "result c1 = Some (fresh_result [r])"
  shows "single_row d sql c = (Inr True, on_first_row c1 r)"
  using single_row_rows [OF assms] by (simp add: on_first_row_def)

lemma single_row_True:
  assumes "single_row d sql c = (Inr True, c2)"
  shows "\<exists>c1 r. run_query d sql c = (Inr (), c1) \<and> result c1 = Some (fresh_result [r]) \<and>
    c2 = on_first_row c1 r"
proof (cases "run_query d sql c")
  case (Pair x c1)
  show ?thesis
  proof (cases x)
    case (Inl e)
    with Pair assms show ?thesis by (simp add: single_row_fault)
  next
    case (Inr u)
    from run_query_result [of d sql c u c1] Pair Inr
    obtain p where p: "result c1 = map_option fresh_result p" by auto
    show ?thesis
    proof (cases p)
      case None
      with p Pair Inr assms show ?thesis by (simp add: single_row_null)
    next
      case (Some rws)
      with p have rs: "result c1 = Some (fresh_result rws)" by simp
      from Pair Inr have rq: "run_query d sql c = (Inr u, c1)" by simp
      from single_row_rows [OF rq rs] assms have "length rws = 1"
        by (auto split: if_splits)
      then obtain r where "rws = [r]" by (cases rws) auto
      with rs rq assms single_row_one [of d sql c u c1 r] show ?thesis by auto
    qed
  qed
qed

lemma demo_run_query:
  "run_query (demo table) sql (idle True) = (Inr (), demo_ran table sql)"
  by (simp add: steps demos demo_ran_def)

section \<open>\<^verbatim>\<open>execute_query_value\<close>\<close>

text \<open>
  Claim C2. \<^verbatim>\<open>execute_query_value\<close> returns \<^verbatim>\<open>true\<close> only when the statement was
  dispatched and its result set has exactly one row. When the result set has no row the
  call returns \<^verbatim>\<open>false\<close> after one \<^verbatim>\<open>rowsCount\<close>, the slot and the log as they were.
  When it has two rows or more the call returns \<^verbatim>\<open>false\<close> and logs the row count;
  the slot is as it was and no accessor is called (three \<^verbatim>\<open>rowsCount\<close> calls are all
  that follows the reset). With one row, a supported type and an accessor that returns,
  the call returns \<^verbatim>\<open>true\<close> with the accessor's value in the slot.
\<close>

theorem execute_query_value_exactly_one_row:
  "(fst (execute_query_value d sql ty val c) = Inr True \<longrightarrow>
      (\<exists>c1 r. run_query d sql c = (Inr (), c1) \<and> result c1 = Some (fresh_result [r]))) \<and>
   (run_query d sql c = (Inr (), c1) \<and> result c1 = Some (fresh_result rws) \<longrightarrow>
      (rws = [] \<longrightarrow>
         execute_query_value d sql ty val c = (Inr False, val, called Call_rowsCount c1)) \<and>
      (2 \<le> length rws \<longrightarrow>
         execute_query_value d sql ty val c =
           (Inr False, val,
            log_error [Text ''Error rows count:'', Count (length rws)]
              (called Call_rowsCount (called Call_rowsCount (called Call_rowsCount c1))))) \<and>
      (\<forall>r v. rws = [r] \<and> supported ty \<and> accessor_value d ty (Some r) 1 = Inr v \<longrightarrow>
         execute_query_value d sql ty val c =
           (Inr True, v, called (accessor_call ty 1) (on_first_row c1 r))))"
proof (intro conjI impI allI)
  assume t: "fst (execute_query_value d sql ty val c) = Inr True"
  obtain x c2 where s: "single_row d sql c = (x, c2)" by (cases "single_row d sql c")
  have "x = Inr True"
  proof (cases x)
    case (Inl e)
    with s t show ?thesis
      by (cases e) (simp_all add: execute_query_value_def execute_query_value_try_def)
  next
    case (Inr b)
    with s t show ?thesis
      by (cases b) (simp_all add: execute_query_value_def execute_query_value_try_def)
  qed
  with s single_row_True [of d sql c c2]
  show "\<exists>c1 r. run_query d sql c = (Inr (), c1) \<and> result c1 = Some (fresh_result [r])"
    by blast
next
  assume a: "run_query d sql c = (Inr (), c1) \<and> result c1 = Some (fresh_result rws)"
  then have rq: "run_query d sql c = (Inr (), c1)" and rs: "result c1 = Some (fresh_result rws)"
    by simp_all
  note sr = single_row_rows [OF rq rs]
  {
    assume "rws = []"
    with sr show "execute_query_value d sql ty val c = (Inr False, val, called Call_rowsCount c1)"
      by (simp add: execute_query_value_def execute_query_value_try_def)
  next
    assume "2 \<le> length rws"
    then have "rws \<noteq> []" "length rws \<noteq> 1" by auto
    with sr show "execute_query_value d sql ty val c =
           (Inr False, val,
            log_error [Text ''Error rows count:'', Count (length rws)]
              (called Call_rowsCount (called Call_rowsCount (called Call_rowsCount c1))))"
      by (simp add: execute_query_value_def execute_query_value_try_def)
  next
    fix r v
    assume h: "rws = [r] \<and> supported ty \<and> accessor_value d ty (Some r) 1 = Inr v"
    then have one: "single_row d sql c = (Inr True, on_first_row c1 r)"
      using single_row_one [OF rq] rs by simp
    have res: "result (on_first_row c1 r) = Some (advance (fresh_result [r]))"
      by (simp add: on_first_row_def)
    from h raw_query_value_supported [OF res, of ty d 1 val]
    show "execute_query_value d sql ty val c =
           (Inr True, v, called (accessor_call ty 1) (on_first_row c1 r))"
      by (simp add: execute_query_value_def execute_query_value_try_def one)
  }
qed

theorem execute_query_value_exactly_one_row_witness:
  "run_query (demo []) ''q'' (idle True) = (Inr (), demo_ran [] ''q'') \<and>
   result (demo_ran [] ''q'') = Some (fresh_result []) \<and>
   execute_query_value (demo []) ''q'' T_int64 (V_int64 0) (idle True) =
     (Inr False, V_int64 0, called Call_rowsCount (demo_ran [] ''q'')) \<and>
   run_query (demo [[Cell ''7'' (Some 7)], [Cell ''8'' (Some 8)]]) ''q'' (idle True) =
     (Inr (), demo_ran [[Cell ''7'' (Some 7)], [Cell ''8'' (Some 8)]] ''q'') \<and>
   result (demo_ran [[Cell ''7'' (Some 7)], [Cell ''8'' (Some 8)]] ''q'') =
     Some (fresh_result [[Cell ''7'' (Some 7)], [Cell ''8'' (Some 8)]]) \<and>
   2 \<le> length [[Cell ''7'' (Some 7)], [Cell ''8'' (Some 8)]] \<and>
   execute_query_value (demo [[Cell ''7'' (Some 7)], [Cell ''8'' (Some 8)]]) ''q'' T_int64
       (V_int64 0) (idle True) =
     (Inr False, V_int64 0,
      log_error [Text ''Error rows count:'', Count 2]
        (called Call_rowsCount (called Call_rowsCount (called Call_rowsCount
           (demo_ran [[Cell ''7'' (Some 7)], [Cell ''8'' (Some 8)]] ''q''))))) \<and>
   run_query (demo [[Cell ''7'' (Some 7)]]) ''q'' (idle True) =
     (Inr (), demo_ran [[Cell ''7'' (Some 7)]] ''q'') \<and>
   result (demo_ran [[Cell ''7'' (Some 7)]] ''q'') = Some (fresh_result [[Cell ''7'' (Some 7)]]) \<and>
   supported T_int64 \<and>
   accessor_value (demo [[Cell ''7'' (Some 7)]]) T_int64 (Some [Cell ''7'' (Some 7)]) 1 =
     Inr (V_int64 7) \<and>
   execute_query_value (demo [[Cell ''7'' (Some 7)]]) ''q'' T_int64 (V_int64 0) (idle True) =
     (Inr True, V_int64 7,
      called (Call_getInt64 1) (on_first_row (demo_ran [[Cell ''7'' (Some 7)]] ''q'')
        [Cell ''7'' (Some 7)]))"
proof -
  let ?t0 = "[] :: cell list list"
  let ?t1 = "[[Cell ''7'' (Some 7)]]"
  let ?t2 = "[[Cell ''7'' (Some 7)], [Cell ''8'' (Some 8)]]"
  have h: "result (demo_ran ?t0 ''q'') = Some (fresh_result [])"
    "result (demo_ran ?t2 ''q'') = Some (fresh_result ?t2)"
    "result (demo_ran ?t1 ''q'') = Some (fresh_result ?t1)"
    "supported T_int64"
    "accessor_value (demo ?t1) T_int64 (Some [Cell ''7'' (Some 7)]) 1 = Inr (V_int64 7)"
    "accessor_call T_int64 1 = Call_getInt64 1"
    by (simp_all add: demo_ran_def fresh_result_def supported_def accessor_value_def
        accessor_call_def cast_int64_def demos)
  show ?thesis
    using h demo_run_query [of ?t0 "''q''"] demo_run_query [of ?t1 "''q''"]
      demo_run_query [of ?t2 "''q''"]
      execute_query_value_exactly_one_row [where d = "demo ?t0" and sql = "''q''"
        and ty = T_int64 and val = "V_int64 0" and c = "idle True"
        and ?c1.0 = "demo_ran ?t0 ''q''" and rws = ?t0]
      execute_query_value_exactly_one_row [where d = "demo ?t2" and sql = "''q''"
        and ty = T_int64 and val = "V_int64 0" and c = "idle True"
        and ?c1.0 = "demo_ran ?t2 ''q''" and rws = ?t2]
      execute_query_value_exactly_one_row [where d = "demo ?t1" and sql = "''q''"
        and ty = T_int64 and val = "V_int64 0" and c = "idle True"
        and ?c1.0 = "demo_ran ?t1 ''q''" and rws = ?t1]
    by simp
qed

section \<open>Driver exceptions\<close>

lemma catch_never_thrown:
  "fst (catch_SQLException sql r) \<noteq> Inl (Thrown e)"
proof (cases r)
  case (fields x out c)
  then show ?thesis
  proof (cases x)
    case (Inl f)
    with fields show ?thesis by (cases f) simp_all
  next
    case (Inr b)
    with fields show ?thesis by simp
  qed
qed

lemma run_query_isValid_throws:
  "isValid d (conn c) = (Inl e, s1) \<Longrightarrow>
   run_query d sql c = (Inl (Thrown e), called Call_isValid (c\<lparr>conn := s1\<rparr>))"
  by (simp add: run_query_def and_then_def conn_isValid_def lift_def)

lemma run_query_reconnect_throws:
  "isValid d (conn c) = (Inr False, s1) \<Longrightarrow> reconnect d s1 = (Inl e, s2) \<Longrightarrow>
   run_query d sql c =
     (Inl (Thrown e), called Call_reconnect (called Call_isValid (c\<lparr>conn := s2\<rparr>)))"
  by (simp add: run_query_def and_then_def conn_isValid_def conn_reconnect_def lift_def
      called_def)

lemma run_query_valid:
  "isValid d (conn c) = (Inr True, s1) \<Longrightarrow>
   run_query d sql c = dispatch d sql (called Call_isValid (c\<lparr>conn := s1\<rparr>))"
  by (simp add: run_query_def dispatch_def and_then_def ret_def conn_isValid_def lift_def)

lemma run_query_reconnect_returns:
  "isValid d (conn c) = (Inr False, s1) \<Longrightarrow> reconnect d s1 = (Inr b, s2) \<Longrightarrow>
   run_query d sql c =
     dispatch d sql (called Call_reconnect (called Call_isValid (c\<lparr>conn := s2\<rparr>)))"
  by (simp add: run_query_def dispatch_def and_then_def ret_def conn_isValid_def
      conn_reconnect_def lift_def called_def)

lemma dispatch_execute_throws:
  "execute d sql (conn c) = (Inl e, s) \<Longrightarrow>
   dispatch d sql c = (Inl (Thrown e), called (Call_execute sql) (c\<lparr>conn := s\<rparr>))"
  by (simp add: dispatch_def and_then_def stmt_execute_def lift_def)

lemma value_fault:
  "run_query d sql c = (Inl (Thrown e), c1) \<Longrightarrow>
   execute_query_value d sql ty val c =
     (Inr False, val, c1\<lparr>logged := logged c1 @ exception_lines sql e\<rparr>)"
  by (simp add: execute_query_value_def execute_query_value_try_def single_row_fault)

lemma values_fault:
  "run_query d sql c = (Inl (Thrown e), c1) \<Longrightarrow>
   execute_query_values d sql s rest c =
     (Inr False, s # rest, c1\<lparr>logged := logged c1 @ exception_lines sql e\<rparr>)"
  by (simp add: execute_query_values_def execute_query_values_try_def single_row_fault)

lemma column_fault:
  "run_query d sql c = (Inl (Thrown e), c1) \<Longrightarrow>
   execute_query_column d sql ty r_init vec c =
     (Inr False, vec, c1\<lparr>logged := logged c1 @ exception_lines sql e\<rparr>)"
  by (simp add: execute_query_column_def execute_query_column_try_def)

text \<open>
  Claim C5. None of \<^verbatim>\<open>execute_query_column\<close>, \<^verbatim>\<open>execute_query_value\<close> and
  \<^verbatim>\<open>execute_query_values\<close> ever ends with a driver exception in flight. When the
  liveness check, the reconnect, the dispatch or the fetch of the result set raises, each
  method returns \<^verbatim>\<open>false\<close>, leaves its output as it was and appends the four log
  lines: the SQL text, the driver's message, its error code and its SQL state. A raising
  \<^verbatim>\<open>reconnect\<close> and a raising \<^verbatim>\<open>execute\<close> (with or without a reconnect before
  it) are such cases. An exception raised anywhere else in the \<^verbatim>\<open>try\<close> block is
  turned into \<^verbatim>\<open>false\<close> and the same four lines, on the state reached.
\<close>

theorem driver_exceptions_caught:
  "fst (execute_query_column d sql ty r_init vec c) \<noteq> Inl (Thrown x) \<and>
   fst (execute_query_value d sql ty val c) \<noteq> Inl (Thrown x) \<and>
   fst (execute_query_values d sql s rest c) \<noteq> Inl (Thrown x) \<and>
   (run_query d sql c = (Inl (Thrown e), c1) \<longrightarrow>
      execute_query_column d sql ty r_init vec c =
        (Inr False, vec, c1\<lparr>logged := logged c1 @ exception_lines sql e\<rparr>) \<and>
      execute_query_value d sql ty val c =
        (Inr False, val, c1\<lparr>logged := logged c1 @ exception_lines sql e\<rparr>) \<and>
      execute_query_values d sql s rest c =
        (Inr False, s # rest, c1\<lparr>logged := logged c1 @ exception_lines sql e\<rparr>)) \<and>
   (isValid d (conn c) = (Inr False, s1) \<and> reconnect d s1 = (Inl e, s2) \<longrightarrow>
      run_query d sql c =
        (Inl (Thrown e), called Call_reconnect (called Call_isValid (c\<lparr>conn := s2\<rparr>)))) \<and>
   (isValid d (conn c) = (Inr True, s1) \<and> execute d sql s1 = (Inl e, s2) \<longrightarrow>
      run_query d sql c =
        (Inl (Thrown e), called (Call_execute sql) (called Call_isValid (c\<lparr>conn := s2\<rparr>)))) \<and>
   (isValid d (conn c) = (Inr False, s1) \<and> reconnect d s1 = (Inr b, s2) \<and>
    execute d sql s2 = (Inl e, s3) \<longrightarrow>
      run_query d sql c =
        (Inl (Thrown e),
         called (Call_execute sql) (called Call_reconnect (called Call_isValid (c\<lparr>conn := s3\<rparr>))))) \<and>
   (execute_query_column_try d sql ty r_init vec c = (Inl (Thrown e), vec', c') \<longrightarrow>
      execute_query_column d sql ty r_init vec c =
        (Inr False, vec', c'\<lparr>logged := logged c' @ exception_lines sql e\<rparr>)) \<and>
   (execute_query_value_try d sql ty val c = (Inl (Thrown e), val', c') \<longrightarrow>
      execute_query_value d sql ty val c =
        (Inr False, val', c'\<lparr>logged := logged c' @ exception_lines sql e\<rparr>)) \<and>
   (execute_query_values_try d sql s rest c = (Inl (Thrown e), slots', c') \<longrightarrow>
      execute_query_values d sql s rest c =
        (Inr False, slots', c'\<lparr>logged := logged c' @ exception_lines sql e\<rparr>))"
proof (intro conjI impI)
  show "fst (execute_query_column d sql ty r_init vec c) \<noteq> Inl (Thrown x)"
    "fst (execute_query_value d sql ty val c) \<noteq> Inl (Thrown x)"
    "fst (execute_query_values d sql s rest c) \<noteq> Inl (Thrown x)"
    by (simp_all add: execute_query_column_def execute_query_value_def
        execute_query_values_def catch_never_thrown)
next
  assume "run_query d sql c = (Inl (Thrown e), c1)"
  then show "execute_query_column d sql ty r_init vec c =
        (Inr False, vec, c1\<lparr>logged := logged c1 @ exception_lines sql e\<rparr>)"
    "execute_query_value d sql ty val c =
        (Inr False, val, c1\<lparr>logged := logged c1 @ exception_lines sql e\<rparr>)"
    "execute_query_values d sql s rest c =
        (Inr False, s # rest, c1\<lparr>logged := logged c1 @ exception_lines sql e\<rparr>)"
    by (rule column_fault value_fault values_fault)+
next
  assume "isValid d (conn c) = (Inr False, s1) \<and> reconnect d s1 = (Inl e, s2)"
  then show "run_query d sql c =
        (Inl (Thrown e), called Call_reconnect (called Call_isValid (c\<lparr>conn := s2\<rparr>)))"
    by (simp add: run_query_reconnect_throws)
next
  assume "isValid d (conn c) = (Inr True, s1) \<and> execute d sql s1 = (Inl e, s2)"
  then show "run_query d sql c =
        (Inl (Thrown e), called (Call_execute sql) (called Call_isValid (c\<lparr>conn := s2\<rparr>)))"
    by (simp add: run_query_valid dispatch_execute_throws called_def)
next
  assume "isValid d (conn c) = (Inr False, s1) \<and> reconnect d s1 = (Inr b, s2) \<and>
    execute d sql s2 = (Inl e, s3)"
  then show "run_query d sql c =
        (Inl (Thrown e),
         called (Call_execute sql) (called Call_reconnect (called Call_isValid (c\<lparr>conn := s3\<rparr>))))"
    by (simp add: run_query_reconnect_returns [of d c s1 b s2] dispatch_execute_throws called_def)
next
  assume "execute_query_column_try d sql ty r_init vec c = (Inl (Thrown e), vec', c')"
  then show "execute_query_column d sql ty r_init vec c =
        (Inr False, vec', c'\<lparr>logged := logged c' @ exception_lines sql e\<rparr>)"
    by (simp add: execute_query_column_def)
next
  assume "execute_query_value_try d sql ty val c = (Inl (Thrown e), val', c')"
  then show "execute_query_value d sql ty val c =
        (Inr False, val', c'\<lparr>logged := logged c' @ exception_lines sql e\<rparr>)"
    by (simp add: execute_query_value_def)
next
  assume "execute_query_values_try d sql s rest c = (Inl (Thrown e), slots', c')"
  then show "execute_query_values d sql s rest c =
        (Inr False, slots', c'\<lparr>logged := logged c' @ exception_lines sql e\<rparr>)"
    by (simp add: execute_query_values_def)
qed

theorem driver_exceptions_caught_witness:
  "run_query demo_bad_sql ''q'' (idle True) =
     (Inl (Thrown syntax_error), demo_stopped True [Call_isValid, Call_execute ''q'']) \<and>
   execute_query_column demo_bad_sql ''q'' T_int64 (V_int64 0) [V_int64 1] (idle True) =
     (Inr False, [V_int64 1],
      (demo_stopped True [Call_isValid, Call_execute ''q''])
        \<lparr>logged := exception_lines ''q'' syntax_error\<rparr>) \<and>
   execute_query_value demo_bad_sql ''q'' T_int64 (V_int64 0) (idle True) =
     (Inr False, V_int64 0,
      (demo_stopped True [Call_isValid, Call_execute ''q''])
        \<lparr>logged := exception_lines ''q'' syntax_error\<rparr>) \<and>
   execute_query_values demo_bad_sql ''q'' (T_int64, V_int64 0) [(T_string, V_string [])]
       (idle True) =
     (Inr False, [(T_int64, V_int64 0), (T_string, V_string [])],
      (demo_stopped True [Call_isValid, Call_execute ''q''])
        \<lparr>logged := exception_lines ''q'' syntax_error\<rparr>) \<and>
   isValid demo_bad_sql (conn (idle True)) = (Inr True, True) \<and>
   execute demo_bad_sql ''q'' True = (Inl syntax_error, True) \<and>
   execute_query_value_try demo_bad_sql ''q'' T_int64 (V_int64 0) (idle True) =
     (Inl (Thrown syntax_error), V_int64 0, demo_stopped True [Call_isValid, Call_execute ''q'']) \<and>
   isValid demo_unreachable (conn (idle False)) = (Inr False, False) \<and>
   reconnect demo_unreachable False = (Inl host_unreachable, False) \<and>
   run_query demo_unreachable ''q'' (idle False) =
     (Inl (Thrown host_unreachable), demo_stopped False [Call_isValid, Call_reconnect]) \<and>
   execute_query_value demo_unreachable ''q'' T_int64 (V_int64 0) (idle False) =
     (Inr False, V_int64 0,
      (demo_stopped False [Call_isValid, Call_reconnect])
        \<lparr>logged := exception_lines ''q'' host_unreachable\<rparr>) \<and>
   isValid demo_bad_sql (conn (idle False)) = (Inr False, False) \<and>
   reconnect demo_bad_sql False = (Inr True, True) \<and>
   run_query demo_bad_sql ''q'' (idle False) =
     (Inl (Thrown syntax_error),
      demo_stopped True [Call_isValid, Call_reconnect, Call_execute ''q''])"
proof -
  let ?c1 = "demo_stopped True [Call_isValid, Call_execute ''q'']"
  let ?c2 = "demo_stopped False [Call_isValid, Call_reconnect]"
  have h: "run_query demo_bad_sql ''q'' (idle True) = (Inl (Thrown syntax_error), ?c1)"
    "isValid demo_bad_sql (conn (idle True)) = (Inr True, True)"
    "execute demo_bad_sql ''q'' True = (Inl syntax_error, True)"
    "isValid demo_unreachable (conn (idle False)) = (Inr False, False)"
    "reconnect demo_unreachable False = (Inl host_unreachable, False)"
    "isValid demo_bad_sql (conn (idle False)) = (Inr False, False)"
    "reconnect demo_bad_sql False = (Inr True, True)"
    "run_query demo_unreachable ''q'' (idle False) = (Inl (Thrown host_unreachable), ?c2)"
    "execute_query_value_try demo_bad_sql ''q'' T_int64 (V_int64 0) (idle True) =
       (Inl (Thrown syntax_error), V_int64 0, ?c1)"
    by (simp_all add: demo_bad_sql_def demo_unreachable_def demo_stopped_def
        execute_query_value_try_def steps demos)
  show ?thesis
    using h
      driver_exceptions_caught [where d = demo_bad_sql and sql = "''q''" and ty = T_int64
        and r_init = "V_int64 0" and vec = "[V_int64 1]" and c = "idle True"
        and val = "V_int64 0" and s = "(T_int64, V_int64 0)"
        and rest = "[(T_string, V_string [])]" and e = syntax_error and ?c1.0 = ?c1
        and ?s1.0 = True and ?s2.0 = True and val' = "V_int64 0" and c' = ?c1]
      driver_exceptions_caught [where d = demo_unreachable and sql = "''q''" and ty = T_int64
        and c = "idle False" and val = "V_int64 0" and e = host_unreachable and ?c1.0 = ?c2
        and ?s1.0 = False and ?s2.0 = False]
      driver_exceptions_caught [where d = demo_bad_sql and sql = "''q''"
        and c = "idle False" and e = syntax_error
        and ?s1.0 = False and b = True and ?s2.0 = True and ?s3.0 = True]
    by (simp add: demo_stopped_def idle_def called_def)
qed

section \<open>The order of the native calls\<close>

lemma only_reads_refl [simp]: "only_reads c c"
  by (simp add: only_reads_def)

lemma only_reads_trans: "only_reads c c1 \<Longrightarrow> only_reads c1 c2 \<Longrightarrow> only_reads c c2"
  by (auto simp: only_reads_def)

lemma only_reads_log [simp]: "only_reads c (log_error l c') \<longleftrightarrow> only_reads c c'"
  by (simp add: only_reads_def)

lemma only_reads_logged [simp]:
  "only_reads c (c'\<lparr>logged := l\<rparr>) \<longleftrightarrow> only_reads c c'"
  by (simp add: only_reads_def)

lemma only_reads_raw_query_value:
  "raw_query_value d ty idx val c = (x, v, c') \<Longrightarrow> only_reads c c'"
  by (auto simp: raw_query_value_def raw_query_value_string_def raw_query_value_generic_def
      result_getString_def result_getDouble_def result_getInt64_def result_getUInt64_def
      only_reads_def split: option.splits sum.splits if_splits prod.splits)

lemma only_reads_pack:
  "raw_query_value_pack d idx s rest c = (x, vs, c') \<Longrightarrow> only_reads c c'"
proof (induction rest arbitrary: idx s c x vs c')
  case Nil
  then show ?case
    by (auto split: prod.splits dest: only_reads_raw_query_value)
next
  case (Cons s' rest)
  obtain y v c1 where h: "raw_query_value d (fst s) idx (snd s) c = (y, v, c1)"
    by (cases "raw_query_value d (fst s) idx (snd s) c")
  then have 1: "only_reads c c1" by (rule only_reads_raw_query_value)
  show ?case
  proof (cases y)
    case (Inl e)
    with Cons.prems h 1 show ?thesis by simp
  next
    case (Inr b)
    obtain z ws c2 where t: "raw_query_value_pack d (idx + 1) s' rest c1 = (z, ws, c2)"
      by (cases "raw_query_value_pack d (idx + 1) s' rest c1")
    from Cons.IH [OF t] have "only_reads c1 c2" .
    with Cons.prems h Inr t 1 show ?thesis
      by (auto intro: only_reads_trans)
  qed
qed

lemma only_reads_next:
  "result_next c = (x, c') \<Longrightarrow> only_reads c c'"
  by (auto simp: result_next_def only_reads_def advance_def split: option.splits)

lemma only_reads_rowsCount:
  "result_rowsCount c = (x, c') \<Longrightarrow> only_reads c c'"
  by (auto simp: result_rowsCount_def only_reads_def split: option.splits)

lemma only_reads_loop:
  "column_loop d ty r_val vec ret_flag c = (x, vec', c') \<Longrightarrow> only_reads c c'"
proof (induction d ty r_val vec ret_flag c arbitrary: x vec' c' rule: column_loop.induct)
  case (1 d ty r_val vec ret_flag c)
  obtain y c1 where n: "result_next c = (y, c1)" by (cases "result_next c")
  then have 1: "only_reads c c1" by (rule only_reads_next)
  show ?case
  proof (cases y)
    case (Inl e)
    with "1.prems" n 1 show ?thesis by (simp add: column_loop.simps [of d ty r_val vec ret_flag c])
  next
    case (Inr on_row)
    show ?thesis
    proof (cases on_row)
      case False
      with "1.prems" n Inr 1 show ?thesis
        by (simp add: column_loop.simps [of d ty r_val vec ret_flag c])
    next
      case True
      obtain z v c2 where q: "raw_query_value d ty 1 r_val c1 = (z, v, c2)"
        by (cases "raw_query_value d ty 1 r_val c1")
      then have 2: "only_reads c1 c2" by (rule only_reads_raw_query_value)
      show ?thesis
      proof (cases z)
        case (Inl e)
        with "1.prems" n Inr True q 1 2 show ?thesis
          by (auto simp: column_loop.simps [of d ty r_val vec ret_flag c] intro: only_reads_trans)
      next
        case ok: (Inr ok)
        show ?thesis
        proof (cases ok)
          case True
          with "1.prems" n Inr \<open>on_row\<close> q ok
          have "column_loop d ty v (vec @ [v]) True c2 = (x, vec', c')"
            by (simp add: column_loop.simps [of d ty r_val vec ret_flag c])
          from "1.IH"(1) [OF n [symmetric] Inr \<open>on_row\<close> q [symmetric] ok refl True this]
          have "only_reads c2 c'" .
          with 1 2 show ?thesis by (blast intro: only_reads_trans)
        next
          case False
          with "1.prems" n Inr \<open>on_row\<close> q ok
          have "column_loop d ty v vec ret_flag c2 = (x, vec', c')"
            by (simp add: column_loop.simps [of d ty r_val vec ret_flag c])
          from "1.IH"(2) [OF n [symmetric] Inr \<open>on_row\<close> q [symmetric] ok refl False this]
          have "only_reads c2 c'" .
          with 1 2 show ?thesis by (blast intro: only_reads_trans)
        qed
      qed
    qed
  qed
qed

lemma reads_not_in:
  "list_all is_read ks \<Longrightarrow> \<not> is_read k \<Longrightarrow> count_list ks k = 0"
  by (auto simp: count_list_0_iff list_all_iff)

lemma fetch_not_in:
  "set gs \<subseteq> {Call_getResultSet} \<Longrightarrow> k \<noteq> Call_getResultSet \<Longrightarrow> count_list gs k = 0"
  by (auto simp: count_list_0_iff)

lemma dispatch_shape:
  assumes "dispatch d sql c = (y, c1)"
  shows "\<exists>gs. calls c1 = calls c @ Call_execute sql # gs \<and> set gs \<subseteq> {Call_getResultSet}"
  using assms
  by (auto simp: dispatch_def and_then_def stmt_execute_def stmt_getResultSet_def
      split: prod.splits sum.splits)

lemma run_query_shape:
  assumes "run_query d sql c = (y, c1)"
  shows "\<exists>pro. calls c1 = calls c @ pro \<and> \<not> list_ex is_read pro \<and> logged c1 = logged c \<and>
    (case y of
       Inl e \<Rightarrow> result c1 = result c \<and> (\<exists>ex. e = Thrown ex)
     | Inr u \<Rightarrow> (\<exists>p. result c1 = map_option fresh_result p) \<and> pro \<noteq> [] \<and>
         last pro = Call_getResultSet)"
  using assms
  by (auto simp: run_query_def and_then_def ret_def conn_isValid_def conn_reconnect_def
      stmt_execute_def stmt_getResultSet_def lift_def split: prod.splits sum.splits if_splits)

lemma only_reads_single_row:
  assumes "run_query d sql c = (Inr u, c1)" "single_row d sql c = (x, c2)"
  shows "only_reads c1 c2"
proof (cases "result c1")
  case None
  with assms show ?thesis by (simp add: single_row_null)
next
  case (Some rs)
  from single_row_rows [OF assms(1) Some] assms(2) Some show ?thesis
    by (auto simp: only_reads_def advance_def split: if_splits)
qed

lemma catch_only_reads:
  assumes "catch_SQLException sql (y, out, c1) = (x, out', c')"
  shows "only_reads c c' \<longleftrightarrow> only_reads c c1"
proof (cases y)
  case (Inl e)
  with assms show ?thesis by (cases e) auto
next
  case (Inr b)
  with assms show ?thesis by auto
qed

lemma value_shape:
  assumes "run_query d sql c = (y, c1)" "execute_query_value d sql ty val c = (x, out, c')"
  shows "only_reads c1 c' \<and> (\<forall>e. y = Inl e \<longrightarrow> x = Inr False \<and> calls c' = calls c1 \<and> result c' = result c1)"
proof (cases y)
  case (Inl e)
  from run_query_shape [OF assms(1)] Inl obtain ex where "e = Thrown ex" by auto
  with assms Inl value_fault [of d sql c ex c1 ty val] show ?thesis
    by (auto simp: only_reads_def)
next
  case (Inr u)
  obtain z c2 where s: "single_row d sql c = (z, c2)" by (cases "single_row d sql c")
  with assms Inr have 1: "only_reads c1 c2" by (simp add: only_reads_single_row)
  obtain z' out2 c3 where t: "execute_query_value_try d sql ty val c = (z', out2, c3)"
    by (cases "execute_query_value_try d sql ty val c")
  have "only_reads c2 c3"
    using t s
    by (auto simp: execute_query_value_try_def split: sum.splits if_splits
        dest: only_reads_raw_query_value)
  with 1 have "only_reads c1 c3" by (rule only_reads_trans)
  with assms(2) t catch_only_reads [of sql z' out2 c3 x out c' c1] Inr show ?thesis
    by (simp add: execute_query_value_def)
qed

lemma values_shape:
  assumes "run_query d sql c = (y, c1)" "execute_query_values d sql s rest c = (x, out, c')"
  shows "only_reads c1 c' \<and> (\<forall>e. y = Inl e \<longrightarrow> x = Inr False \<and> calls c' = calls c1 \<and> result c' = result c1)"
proof (cases y)
  case (Inl e)
  from run_query_shape [OF assms(1)] Inl obtain ex where "e = Thrown ex" by auto
  with assms Inl values_fault [of d sql c ex c1 s rest] show ?thesis
    by (auto simp: only_reads_def)
next
  case (Inr u)
  obtain z c2 where s: "single_row d sql c = (z, c2)" by (cases "single_row d sql c")
  with assms Inr have 1: "only_reads c1 c2" by (simp add: only_reads_single_row)
  obtain z' out2 c3 where t: "execute_query_values_try d sql s rest c = (z', out2, c3)"
    by (cases "execute_query_values_try d sql s rest c")
  have "only_reads c2 c3"
    using t s
    by (auto simp: execute_query_values_try_def split: sum.splits if_splits
        dest: only_reads_pack)
  with 1 have "only_reads c1 c3" by (rule only_reads_trans)
  with assms(2) t catch_only_reads [of sql z' out2 c3 x out c' c1] Inr show ?thesis
    by (simp add: execute_query_values_def)
qed

lemma column_shape:
  assumes "run_query d sql c = (y, c1)" "execute_query_column d sql ty r_init vec c = (x, out, c')"
  shows "only_reads c1 c' \<and> (\<forall>e. y = Inl e \<longrightarrow> x = Inr False \<and> calls c' = calls c1 \<and> result c' = result c1)"
proof (cases y)
  case (Inl e)
  from run_query_shape [OF assms(1)] Inl obtain ex where "e = Thrown ex" by auto
  with assms Inl column_fault [of d sql c ex c1 ty r_init vec] show ?thesis
    by (auto simp: only_reads_def)
next
  case (Inr u)
  obtain z' out2 c3 where t: "execute_query_column_try d sql ty r_init vec c = (z', out2, c3)"
    by (cases "execute_query_column_try d sql ty r_init vec c")
  have "only_reads c1 c3"
    using t assms(1) Inr
    by (auto simp: execute_query_column_try_def split: sum.splits if_splits prod.splits
        dest: only_reads_loop only_reads_rowsCount intro: only_reads_trans)
  with assms(2) t catch_only_reads [of sql z' out2 c3 x out c' c1] Inr show ?thesis
    by (simp add: execute_query_column_def)
qed

lemma trace_append [simp]: "calls c' = calls c @ ks \<Longrightarrow> trace c c' = ks"
  by (simp add: trace_def)

lemma protocol:
  assumes rq: "run_query d sql c = (y, c1)" and rd: "only_reads c1 c'"
    and fl: "\<forall>e. y = Inl e \<longrightarrow> flag = Inr False \<and> calls c' = calls c1"
  shows "reconnect_protocol d sql c flag c'"
proof -
  from rd obtain ks where ks: "calls c' = calls c1 @ ks" "list_all is_read ks"
    by (auto simp: only_reads_def)
  note cnt = reads_not_in [OF ks(2)] fetch_not_in
  obtain v s1 where v: "isValid d (conn c) = (v, s1)" by (cases "isValid d (conn c)")
  show ?thesis
  proof (cases v)
    case (Inl e)
    with v rq fl ks have "calls c' = calls c @ [Call_isValid]" "flag = Inr False"
      by (auto simp: run_query_isValid_throws)
    with v Inl show ?thesis by (simp add: reconnect_protocol_def)
  next
    case (Inr valid)
    show ?thesis
    proof (cases valid)
      case True
      with v Inr rq have "dispatch d sql (called Call_isValid (c\<lparr>conn := s1\<rparr>)) = (y, c1)"
        by (simp add: run_query_valid)
      from dispatch_shape [OF this] obtain gs
        where gs: "calls c1 = calls c @ Call_isValid # Call_execute sql # gs"
          "set gs \<subseteq> {Call_getResultSet}" by auto
      with ks have "calls c' = calls c @ Call_isValid # Call_execute sql # gs @ ks" by simp
      with v Inr True gs(2) show ?thesis by (simp add: reconnect_protocol_def cnt)
    next
      case False
      obtain w s2 where w: "reconnect d s1 = (w, s2)" by (cases "reconnect d s1")
      show ?thesis
      proof (cases w)
        case (Inl e)
        with v Inr False w rq fl ks
        have "calls c' = calls c @ [Call_isValid, Call_reconnect]" "flag = Inr False"
          by (auto simp: run_query_reconnect_throws)
        with v Inr False w Inl show ?thesis by (simp add: reconnect_protocol_def)
      next
        case b: (Inr b)
        with v Inr False w rq
        have "dispatch d sql (called Call_reconnect (called Call_isValid (c\<lparr>conn := s2\<rparr>))) =
            (y, c1)"
          by (simp add: run_query_reconnect_returns [of d c s1 b s2])
        from dispatch_shape [OF this] obtain gs
          where gs: "calls c1 = calls c @ Call_isValid # Call_reconnect # Call_execute sql # gs"
            "set gs \<subseteq> {Call_getResultSet}" by auto
        with ks
        have "calls c' = calls c @ Call_isValid # Call_reconnect # Call_execute sql # gs @ ks"
          by simp
        with v Inr False w b gs(2) show ?thesis by (simp add: reconnect_protocol_def cnt)
      qed
    qed
  qed
qed

text \<open>
  Claim C4, as amended. In each of \<^verbatim>\<open>execute_query_column\<close>,
  \<^verbatim>\<open>execute_query_value\<close> and \<^verbatim>\<open>execute_query_values\<close> the liveness check is the
  first native call and is made once. When it reports a session that is not valid, one
  reconnect attempt follows at once and no other is made; if that attempt raises, the
  method returns \<^verbatim>\<open>false\<close> and nothing else is called; if it returns, the statement
  is dispatched next, once. When the check reports a valid session the statement is
  dispatched next, once, with no reconnect; when the check itself raises the method returns
  \<^verbatim>\<open>false\<close>.
\<close>

theorem one_reconnect_attempt:
  "reconnect_protocol d sql c
     (fst (execute_query_column d sql ty r_init vec c))
     (snd (snd (execute_query_column d sql ty r_init vec c))) \<and>
   reconnect_protocol d sql c
     (fst (execute_query_value d sql ty val c))
     (snd (snd (execute_query_value d sql ty val c))) \<and>
   reconnect_protocol d sql c
     (fst (execute_query_values d sql s rest c))
     (snd (snd (execute_query_values d sql s rest c)))"
proof (intro conjI)
  obtain y c1 where rq: "run_query d sql c = (y, c1)" by (cases "run_query d sql c")
  obtain x1 out1 c1' where m1: "execute_query_column d sql ty r_init vec c = (x1, out1, c1')"
    by (cases "execute_query_column d sql ty r_init vec c")
  from column_shape [OF rq m1] have "reconnect_protocol d sql c x1 c1'"
    by (intro protocol [OF rq]) auto
  with m1 show "reconnect_protocol d sql c
     (fst (execute_query_column d sql ty r_init vec c))
     (snd (snd (execute_query_column d sql ty r_init vec c)))" by simp
  obtain x2 out2 c2' where m2: "execute_query_value d sql ty val c = (x2, out2, c2')"
    by (cases "execute_query_value d sql ty val c")
  from value_shape [OF rq m2] have "reconnect_protocol d sql c x2 c2'"
    by (intro protocol [OF rq]) auto
  with m2 show "reconnect_protocol d sql c
     (fst (execute_query_value d sql ty val c))
     (snd (snd (execute_query_value d sql ty val c)))" by simp
  obtain x3 out3 c3' where m3: "execute_query_values d sql s rest c = (x3, out3, c3')"
    by (cases "execute_query_values d sql s rest c")
  from values_shape [OF rq m3] have "reconnect_protocol d sql c x3 c3'"
    by (intro protocol [OF rq]) auto
  with m3 show "reconnect_protocol d sql c
     (fst (execute_query_values d sql s rest c))
     (snd (snd (execute_query_values d sql s rest c)))" by simp
qed

theorem one_reconnect_attempt_witness:
  "isValid demo_unreachable (conn (idle False)) = (Inr False, False) \<and>
   reconnect demo_unreachable False = (Inl host_unreachable, False) \<and>
   execute_query_value demo_unreachable ''q'' T_int64 (V_int64 0) (idle False) =
     (Inr False, V_int64 0,
      (demo_stopped False [Call_isValid, Call_reconnect])
        \<lparr>logged := exception_lines ''q'' host_unreachable\<rparr>) \<and>
   reconnect_protocol demo_unreachable ''q'' (idle False) (Inr False)
     ((demo_stopped False [Call_isValid, Call_reconnect])
        \<lparr>logged := exception_lines ''q'' host_unreachable\<rparr>) \<and>
   isValid (demo [[Cell ''7'' (Some 7)]]) (conn (idle False)) = (Inr False, False) \<and>
   reconnect (demo [[Cell ''7'' (Some 7)]]) False = (Inr True, True) \<and>
   trace (idle False)
     (snd (snd (execute_query_value (demo [[Cell ''7'' (Some 7)]]) ''q'' T_int64 (V_int64 0)
        (idle False)))) =
     [Call_isValid, Call_reconnect, Call_execute ''q'', Call_getResultSet,
      Call_rowsCount, Call_rowsCount, Call_next, Call_getInt64 1] \<and>
   reconnect_protocol (demo [[Cell ''7'' (Some 7)]]) ''q'' (idle False)
     (fst (execute_query_value (demo [[Cell ''7'' (Some 7)]]) ''q'' T_int64 (V_int64 0)
        (idle False)))
     (snd (snd (execute_query_value (demo [[Cell ''7'' (Some 7)]]) ''q'' T_int64 (V_int64 0)
        (idle False))))"
proof -
  have v: "execute_query_value demo_unreachable ''q'' T_int64 (V_int64 0) (idle False) =
     (Inr False, V_int64 0,
      (demo_stopped False [Call_isValid, Call_reconnect])
        \<lparr>logged := exception_lines ''q'' host_unreachable\<rparr>)"
    by (simp add: demo_unreachable_def demo_stopped_def exception_lines_def
        execute_query_value_def execute_query_value_try_def steps demos)
  have t: "trace (idle False)
     (snd (snd (execute_query_value (demo [[Cell ''7'' (Some 7)]]) ''q'' T_int64 (V_int64 0)
        (idle False)))) =
     [Call_isValid, Call_reconnect, Call_execute ''q'', Call_getResultSet,
      Call_rowsCount, Call_rowsCount, Call_next, Call_getInt64 1]"
    by (simp add: trace_def execute_query_value_def execute_query_value_try_def steps demos)
  have h: "isValid demo_unreachable (conn (idle False)) = (Inr False, False)"
    "reconnect demo_unreachable False = (Inl host_unreachable, False)"
    "isValid (demo [[Cell ''7'' (Some 7)]]) (conn (idle False)) = (Inr False, False)"
    "reconnect (demo [[Cell ''7'' (Some 7)]]) False = (Inr True, True)"
    by (simp_all add: demo_unreachable_def demos)
  show ?thesis
    using v t h
      one_reconnect_attempt [where d = demo_unreachable and sql = "''q''" and ty = T_int64
        and val = "V_int64 0" and c = "idle False"]
      one_reconnect_attempt [where d = "demo [[Cell ''7'' (Some 7)]]" and sql = "''q''"
        and ty = T_int64 and val = "V_int64 0" and c = "idle False"]
    by simp
qed

text \<open>
  Claim C4, as stated, fails: \<^verbatim>\<open>reconnect\<close> reports failure by returning
  \<^verbatim>\<open>false\<close> too, and that value is dropped. Here the session is down, the reconnect
  returns \<^verbatim>\<open>false\<close>, the dispatch goes through all the same, and the call returns
  \<^verbatim>\<open>true\<close>.
\<close>

theorem reconnect_failure_counterexample:
  "isValid (demo_flaky [[Cell ''7'' (Some 7)]]) (conn (idle False)) = (Inr False, False) \<and>
   reconnect (demo_flaky [[Cell ''7'' (Some 7)]]) False = (Inr False, False) \<and>
   execute_query_value (demo_flaky [[Cell ''7'' (Some 7)]]) ''q'' T_int64 (V_int64 0) (idle False) =
     (Inr True, V_int64 7,
      \<lparr>conn = False, result = Some \<lparr>rows = [[Cell ''7'' (Some 7)]], cursor = 1\<rparr>, logged = [],
       calls = [Call_isValid, Call_reconnect, Call_execute ''q'', Call_getResultSet,
         Call_rowsCount, Call_rowsCount, Call_next, Call_getInt64 1]\<rparr>)"
  by (simp add: demo_flaky_def execute_query_value_def execute_query_value_try_def steps demos)

section \<open>The current result handle\<close>

lemma reset_before_readI:
  assumes rq: "run_query d sql c = (y, c1)" and rd: "only_reads c1 c'"
    and fl: "\<forall>e. y = Inl e \<longrightarrow> calls c' = calls c1"
  shows "reset_before_read d sql c c'"
proof -
  from rd obtain ks where ks: "calls c' = calls c1 @ ks" "list_all is_read ks"
    and rows: "map_option rows (result c') = map_option rows (result c1)"
    by (auto simp: only_reads_def)
  from run_query_shape [OF rq] obtain pro where pro: "calls c1 = calls c @ pro"
    "\<not> list_ex is_read pro"
    "case y of Inl e \<Rightarrow> result c1 = result c \<and> (\<exists>ex. e = Thrown ex)
     | Inr u \<Rightarrow> (\<exists>p. result c1 = map_option fresh_result p) \<and> pro \<noteq> [] \<and>
         last pro = Call_getResultSet"
    by auto
  show ?thesis
  proof (cases y)
    case (Inl e)
    with fl ks have "ks = []" by simp
    with Inl rq ks pro rows show ?thesis
      by (simp add: reset_before_read_def)
  next
    case (Inr u)
    with pro(3) obtain p where "result c1 = map_option fresh_result p" by auto
    then have "case result c1 of None \<Rightarrow> True | Some rs \<Rightarrow> cursor rs = 0"
      by (cases p) simp_all
    with Inr rq ks pro rows show ?thesis
      by (simp add: reset_before_read_def)
  qed
qed

lemma dispatch_overwrites:
  "fst (dispatch d sql c) = Inr u \<Longrightarrow> dispatch d sql (c\<lparr>result := r\<rparr>) = dispatch d sql c"
  by (auto simp: dispatch_def and_then_def stmt_execute_def stmt_getResultSet_def called_def
      split: prod.splits sum.splits)

lemma run_query_overwrites:
  assumes "fst (run_query d sql c) = Inr u"
  shows "run_query d sql (c\<lparr>result := r\<rparr>) = run_query d sql c"
proof -
  let ?c = "c\<lparr>result := r\<rparr>"
  have upd: "called k (?c\<lparr>conn := s\<rparr>) = (called k (c\<lparr>conn := s\<rparr>))\<lparr>result := r\<rparr>" for k s
    by (simp add: called_def)
  have upd2: "called k (called k' (?c\<lparr>conn := s\<rparr>)) =
      (called k (called k' (c\<lparr>conn := s\<rparr>)))\<lparr>result := r\<rparr>" for k k' s
    by (simp add: called_def)
  obtain v s1 where v: "isValid d (conn c) = (v, s1)" by (cases "isValid d (conn c)")
  then have v': "isValid d (conn ?c) = (v, s1)" by simp
  show ?thesis
  proof (cases v)
    case (Inl e)
    with v assms show ?thesis by (simp add: run_query_isValid_throws)
  next
    case (Inr valid)
    show ?thesis
    proof (cases valid)
      case True
      with v v' Inr assms show ?thesis
        by (simp add: run_query_valid upd dispatch_overwrites del: connection.update_convs)
    next
      case False
      obtain w s2 where w: "reconnect d s1 = (w, s2)" by (cases "reconnect d s1")
      show ?thesis
      proof (cases w)
        case (Inl e)
        with v Inr False w assms show ?thesis by (simp add: run_query_reconnect_throws)
      next
        case b: (Inr b)
        from v Inr False w b
        have 1: "run_query d sql c =
            dispatch d sql (called Call_reconnect (called Call_isValid (c\<lparr>conn := s2\<rparr>)))"
          by (simp add: run_query_reconnect_returns [of d c s1 b s2])
        from v' Inr False w b
        have 2: "run_query d sql ?c =
            dispatch d sql (called Call_reconnect (called Call_isValid (?c\<lparr>conn := s2\<rparr>)))"
          by (rule_tac run_query_reconnect_returns [of d ?c s1 b s2]) simp_all
        from assms 1 2 show ?thesis
          by (simp only: upd2 dispatch_overwrites)
      qed
    qed
  qed
qed

lemma value_by_run_query:
  "run_query d sql c2 = run_query d sql c \<Longrightarrow>
   execute_query_value d sql ty val c2 = execute_query_value d sql ty val c"
  by (simp add: execute_query_value_def execute_query_value_try_def single_row_def and_then_def)

lemma values_by_run_query:
  "run_query d sql c2 = run_query d sql c \<Longrightarrow>
   execute_query_values d sql s rest c2 = execute_query_values d sql s rest c"
  by (simp add: execute_query_values_def execute_query_values_try_def single_row_def
      and_then_def)

lemma column_by_run_query:
  "run_query d sql c2 = run_query d sql c \<Longrightarrow>
   execute_query_column d sql ty r_init vec c2 = execute_query_column d sql ty r_init vec c"
  by (simp add: execute_query_column_def execute_query_column_try_def)

text \<open>
  Claim C8. The connection has one \<^verbatim>\<open>result_\<close> handle. In each of the three
  methods every read of a result set (\<^verbatim>\<open>rowsCount\<close>, \<^verbatim>\<open>next\<close>, an accessor) comes
  after the reset of the handle to the new result set, which follows the fetch at once;
  when the reset is not reached nothing is read and the old handle stays. Once the
  statement was dispatched and its result set fetched, what the method returns, what it
  writes and the state it leaves do not depend on the handle held before the call.
\<close>

theorem result_superseded:
  "reset_before_read d sql c (snd (snd (execute_query_column d sql ty r_init vec c))) \<and>
   reset_before_read d sql c (snd (snd (execute_query_value d sql ty val c))) \<and>
   reset_before_read d sql c (snd (snd (execute_query_values d sql s rest c))) \<and>
   (fst (run_query d sql c) = Inr () \<longrightarrow>
      execute_query_column d sql ty r_init vec (c\<lparr>result := r\<rparr>) =
        execute_query_column d sql ty r_init vec c \<and>
      execute_query_value d sql ty val (c\<lparr>result := r\<rparr>) =
        execute_query_value d sql ty val c \<and>
      execute_query_values d sql s rest (c\<lparr>result := r\<rparr>) =
        execute_query_values d sql s rest c)"
proof (intro conjI impI)
  obtain y c1 where rq: "run_query d sql c = (y, c1)" by (cases "run_query d sql c")
  obtain x1 out1 c1' where m1: "execute_query_column d sql ty r_init vec c = (x1, out1, c1')"
    by (cases "execute_query_column d sql ty r_init vec c")
  from column_shape [OF rq m1] have "reset_before_read d sql c c1'"
    by (intro reset_before_readI [OF rq]) auto
  with m1
  show "reset_before_read d sql c (snd (snd (execute_query_column d sql ty r_init vec c)))"
    by simp
  obtain x2 out2 c2' where m2: "execute_query_value d sql ty val c = (x2, out2, c2')"
    by (cases "execute_query_value d sql ty val c")
  from value_shape [OF rq m2] have "reset_before_read d sql c c2'"
    by (intro reset_before_readI [OF rq]) auto
  with m2 show "reset_before_read d sql c (snd (snd (execute_query_value d sql ty val c)))"
    by simp
  obtain x3 out3 c3' where m3: "execute_query_values d sql s rest c = (x3, out3, c3')"
    by (cases "execute_query_values d sql s rest c")
  from values_shape [OF rq m3] have "reset_before_read d sql c c3'"
    by (intro reset_before_readI [OF rq]) auto
  with m3 show "reset_before_read d sql c (snd (snd (execute_query_values d sql s rest c)))"
    by simp
next
  assume "fst (run_query d sql c) = Inr ()"
  then have "run_query d sql (c\<lparr>result := r\<rparr>) = run_query d sql c"
    by (rule run_query_overwrites)
  then show "execute_query_column d sql ty r_init vec (c\<lparr>result := r\<rparr>) =
        execute_query_column d sql ty r_init vec c"
    "execute_query_value d sql ty val (c\<lparr>result := r\<rparr>) =
        execute_query_value d sql ty val c"
    "execute_query_values d sql s rest (c\<lparr>result := r\<rparr>) =
        execute_query_values d sql s rest c"
    by (rule column_by_run_query value_by_run_query values_by_run_query)+
qed

theorem result_superseded_witness:
  "fst (run_query (demo [[Cell ''7'' (Some 7)]]) ''q'' demo_stale) = Inr () \<and>
   execute_query_value (demo [[Cell ''7'' (Some 7)]]) ''q'' T_string (V_string []) demo_stale =
     (Inr True, V_string ''7'',
      called (Call_getString 1) (on_first_row (demo_ran [[Cell ''7'' (Some 7)]] ''q'')
        [Cell ''7'' (Some 7)])) \<and>
   execute_query_value (demo [[Cell ''7'' (Some 7)]]) ''q'' T_string (V_string [])
       (demo_stale\<lparr>result := None\<rparr>) =
     execute_query_value (demo [[Cell ''7'' (Some 7)]]) ''q'' T_string (V_string []) demo_stale \<and>
   reset_before_read (demo [[Cell ''7'' (Some 7)]]) ''q'' demo_stale
     (called (Call_getString 1) (on_first_row (demo_ran [[Cell ''7'' (Some 7)]] ''q'')
        [Cell ''7'' (Some 7)]))"
proof -
  have v: "execute_query_value (demo [[Cell ''7'' (Some 7)]]) ''q'' T_string (V_string [])
      demo_stale =
     (Inr True, V_string ''7'',
      called (Call_getString 1) (on_first_row (demo_ran [[Cell ''7'' (Some 7)]] ''q'')
        [Cell ''7'' (Some 7)]))"
    by (simp add: demo_stale_def demo_ran_def on_first_row_def execute_query_value_def
        execute_query_value_try_def steps demos)
  have r: "fst (run_query (demo [[Cell ''7'' (Some 7)]]) ''q'' demo_stale) = Inr ()"
    by (simp add: demo_stale_def steps demos)
  show ?thesis
    using v r
      result_superseded [where d = "demo [[Cell ''7'' (Some 7)]]" and sql = "''q''"
        and ty = T_string and val = "V_string []" and c = demo_stale and r = None]
    by simp
qed

section \<open>Several slots\<close>

lemma upt_Suc_shift: "map g [0..<Suc n] = g 0 # map (\<lambda>j. g (Suc j)) [0..<n]"
proof -
  have "[0..<Suc n] = 0 # map Suc [0..<n]"
    by (simp add: upt_conv_Cons map_Suc_upt del: upt_Suc)
  then show ?thesis by (simp add: comp_def del: upt_Suc)
qed

lemma pack_fills:
  assumes "result c = Some rs"
    and "\<forall>j < length (s # rest). supported (fst ((s # rest) ! j)) \<and>
      accessor_value d (fst ((s # rest) ! j)) (current_row rs) (idx + of_nat j) = Inr (f j)"
  shows "raw_query_value_pack d idx s rest c =
    (Inr True, map (\<lambda>j. (fst ((s # rest) ! j), f j)) [0..<length (s # rest)],
     c\<lparr>calls := calls c @
       map (\<lambda>j. accessor_call (fst ((s # rest) ! j)) (idx + of_nat j)) [0..<length (s # rest)]\<rparr>)"
  using assms
proof (induction rest arbitrary: s idx c f)
  case Nil
  then have "supported (fst s)" "accessor_value d (fst s) (current_row rs) idx = Inr (f 0)"
    by simp_all
  with raw_query_value_supported [OF Nil.prems(1), of "fst s" d idx "snd s"]
  show ?case by (simp add: called_def)
next
  case (Cons s' rest)
  from Cons.prems(2) have 0: "supported (fst s)"
    "accessor_value d (fst s) (current_row rs) idx = Inr (f 0)"
    by force+
  let ?c1 = "called (accessor_call (fst s) idx) c"
  from 0 raw_query_value_supported [OF Cons.prems(1), of "fst s" d idx "snd s"]
  have h: "raw_query_value d (fst s) idx (snd s) c = (Inr True, f 0, ?c1)"
    by simp
  have r1: "result ?c1 = Some rs" using Cons.prems(1) by simp
  have "\<forall>j < length (s' # rest). supported (fst ((s' # rest) ! j)) \<and>
      accessor_value d (fst ((s' # rest) ! j)) (current_row rs) (idx + 1 + of_nat j) =
        Inr (f (Suc j))"
  proof (intro allI impI)
    fix j assume "j < length (s' # rest)"
    then have "Suc j < length (s # s' # rest)" by simp
    with Cons.prems(2) have "supported (fst ((s # s' # rest) ! Suc j)) \<and>
      accessor_value d (fst ((s # s' # rest) ! Suc j)) (current_row rs) (idx + of_nat (Suc j)) =
        Inr (f (Suc j))" by blast
    then show "supported (fst ((s' # rest) ! j)) \<and>
      accessor_value d (fst ((s' # rest) ! j)) (current_row rs) (idx + 1 + of_nat j) =
        Inr (f (Suc j))"
      by (simp add: ac_simps)
  qed
  from Cons.IH [OF r1 this]
  have t: "raw_query_value_pack d (idx + 1) s' rest ?c1 =
    (Inr True, map (\<lambda>j. (fst ((s' # rest) ! j), f (Suc j))) [0..<length (s' # rest)],
     ?c1\<lparr>calls := calls ?c1 @
       map (\<lambda>j. accessor_call (fst ((s' # rest) ! j)) (idx + 1 + of_nat j))
         [0..<length (s' # rest)]\<rparr>)" .
  have len: "length (s # s' # rest) = Suc (length (s' # rest))" by simp
  have "raw_query_value_pack d idx s (s' # rest) c =
    (Inr True,
     (fst s, f 0) # map (\<lambda>j. (fst ((s' # rest) ! j), f (Suc j))) [0..<length (s' # rest)],
     ?c1\<lparr>calls := calls ?c1 @
       map (\<lambda>j. accessor_call (fst ((s' # rest) ! j)) (idx + 1 + of_nat j))
         [0..<length (s' # rest)]\<rparr>)"
    by (simp only: raw_query_value_pack.simps h t prod.case sum.case)
  then show ?case
    unfolding len upt_Suc_shift
    by (simp add: called_def ac_simps del: upt_Suc)
qed

lemma result_on_first_row [simp]:
  "result (on_first_row c1 r) = Some (advance (fresh_result [r]))"
  by (simp add: on_first_row_def)



text \<open>
  Claim C1 does not hold of the code: the variadic overload drops the flag of its first
  slot. With the slot types \<^verbatim>\<open>int64_t\<close>, \<^verbatim>\<open>short\<close> and \<^verbatim>\<open>std::string\<close> on a
  one-row result, the extraction of the second slot fails (the type is not supported, its
  one-slot extraction returns \<^verbatim>\<open>false\<close>), yet the call goes on to column 3,
  overwrites the third slot and returns \<^verbatim>\<open>true\<close>.
\<close>

theorem variadic_drops_failed_slot:
  "raw_query_value (demo [demo_row]) (T_other ''s'') 2 (V_other 0) (demo_at [demo_row] 1) =
     (Inr False, V_other 0,
      log_error [Text ''Unsupported type: '', Type_name (T_other ''s'')] (demo_at [demo_row] 1)) \<and>
   execute_query_values (demo [demo_row]) ''SELECT a, b, c FROM t WHERE id = 1''
       (T_int64, V_int64 0) [(T_other ''s'', V_other 0), (T_string, V_string [])] (idle True) =
     (Inr True,
      [(T_int64, V_int64 7), (T_other ''s'', V_other 0), (T_string, V_string ''x'')],
      \<lparr>conn = True, result = Some \<lparr>rows = [demo_row], cursor = 1\<rparr>,
       logged = [[Text ''Unsupported type: '', Type_name (T_other ''s'')]],
       calls = [Call_isValid, Call_execute ''SELECT a, b, c FROM t WHERE id = 1'',
         Call_getResultSet, Call_rowsCount, Call_rowsCount, Call_next,
         Call_getInt64 1, Call_getString 3]\<rparr>)"
  by (simp add: execute_query_values_def execute_query_values_try_def demo_row_def steps demos)

section \<open>String slots\<close>

lemma string_never_false:
  "fst (raw_query_value d T_string idx val c) \<noteq> Inr False"
  by (simp add: raw_query_value_def raw_query_value_string_def split: prod.splits sum.splits)

lemma pack_last_string:
  "fst (last (s # rest)) = T_string \<Longrightarrow> fst (raw_query_value_pack d idx s rest c) \<noteq> Inr False"
proof (induction rest arbitrary: s idx c)
  case Nil
  with string_never_false [of d idx "snd s" c] show ?case
    by (auto split: prod.splits)
next
  case (Cons s' rest)
  then have l: "fst (last (s' # rest)) = T_string" by simp
  obtain y v c1 where h: "raw_query_value d (fst s) idx (snd s) c = (y, v, c1)"
    by (cases "raw_query_value d (fst s) idx (snd s) c")
  obtain z ws c2 where t: "raw_query_value_pack d (idx + 1) s' rest c1 = (z, ws, c2)"
    by (cases "raw_query_value_pack d (idx + 1) s' rest c1")
  from Cons.IH [OF l, of "idx + 1" c1] t have "z \<noteq> Inr False" by simp
  with h t show ?case by (cases y) simp_all
qed

text \<open>
  Claim C10, as amended. The \<^verbatim>\<open>std::string\<close> specialisation never returns
  \<^verbatim>\<open>false\<close> and never logs: for every column index it returns \<^verbatim>\<open>true\<close> with the
  string stored whenever the string accessor returns, and lets the accessor's exception
  through, the slot untouched, when it raises. A variadic extraction whose last slot is
  a \<^verbatim>\<open>std::string\<close> never returns \<^verbatim>\<open>false\<close>; one whose slots are all
  \<^verbatim>\<open>std::string\<close> returns \<^verbatim>\<open>true\<close> with every slot filled when each of its string
  accessor calls returns.
\<close>

theorem string_slot_never_false:
  "fst (raw_query_value d T_string idx val c) \<noteq> Inr False \<and>
   logged (snd (snd (raw_query_value d T_string idx val c))) = logged c \<and>
   (result c = Some rs \<and> getString d (current_row rs) idx = Inr str \<longrightarrow>
      raw_query_value d T_string idx val c =
        (Inr True, V_string str, called (Call_getString idx) c)) \<and>
   (result c = Some rs \<and> getString d (current_row rs) idx = Inl e \<longrightarrow>
      raw_query_value d T_string idx val c =
        (Inl (Thrown e), val, called (Call_getString idx) c)) \<and>
   (fst (last (s # rest)) = T_string \<longrightarrow>
      fst (raw_query_value_pack d idx s rest c) \<noteq> Inr False) \<and>
   (list_all (\<lambda>x. fst x = T_string) (s # rest) \<and> result c = Some rs \<and>
    (\<forall>j < length (s # rest). getString d (current_row rs) (idx + of_nat j) = Inr (f j)) \<longrightarrow>
      raw_query_value_pack d idx s rest c =
        (Inr True, map (\<lambda>j. (T_string, V_string (f j))) [0..<length (s # rest)],
         c\<lparr>calls := calls c @ map (\<lambda>j. Call_getString (idx + of_nat j)) [0..<length (s # rest)]\<rparr>))"
proof (intro conjI impI)
  show "fst (raw_query_value d T_string idx val c) \<noteq> Inr False"
    by (rule string_never_false)
  show "logged (snd (snd (raw_query_value d T_string idx val c))) = logged c"
    by (auto simp: raw_query_value_def raw_query_value_string_def result_getString_def
        split: prod.splits sum.splits option.splits)
next
  assume "result c = Some rs \<and> getString d (current_row rs) idx = Inr str"
  then show "raw_query_value d T_string idx val c =
        (Inr True, V_string str, called (Call_getString idx) c)"
    by (simp add: raw_query_value_def raw_query_value_string_def result_getString_def lift_def)
next
  assume "result c = Some rs \<and> getString d (current_row rs) idx = Inl e"
  then show "raw_query_value d T_string idx val c =
        (Inl (Thrown e), val, called (Call_getString idx) c)"
    by (simp add: raw_query_value_def raw_query_value_string_def result_getString_def lift_def)
next
  assume "fst (last (s # rest)) = T_string"
  then show "fst (raw_query_value_pack d idx s rest c) \<noteq> Inr False"
    by (rule pack_last_string)
next
  assume a: "list_all (\<lambda>x. fst x = T_string) (s # rest) \<and> result c = Some rs \<and>
    (\<forall>j < length (s # rest). getString d (current_row rs) (idx + of_nat j) = Inr (f j))"
  then have ty: "\<forall>j < length (s # rest). fst ((s # rest) ! j) = T_string"
    by (simp add: list_all_length)
  with a have "\<forall>j < length (s # rest). supported (fst ((s # rest) ! j)) \<and>
      accessor_value d (fst ((s # rest) ! j)) (current_row rs) (idx + of_nat j) =
        Inr (V_string (f j))"
    by (simp add: supported_def accessor_value_def)
  from pack_fills [OF _ this] a
  have "raw_query_value_pack d idx s rest c =
    (Inr True, map (\<lambda>j. (fst ((s # rest) ! j), V_string (f j))) [0..<length (s # rest)],
     c\<lparr>calls := calls c @
       map (\<lambda>j. accessor_call (fst ((s # rest) ! j)) (idx + of_nat j)) [0..<length (s # rest)]\<rparr>)"
    by simp
  moreover have "map (\<lambda>j. (fst ((s # rest) ! j), V_string (f j))) [0..<length (s # rest)] =
      map (\<lambda>j. (T_string, V_string (f j))) [0..<length (s # rest)]"
    using ty by (intro map_cong) (auto simp: less_Suc_eq)
  moreover have "map (\<lambda>j. accessor_call (fst ((s # rest) ! j)) (idx + of_nat j))
        [0..<length (s # rest)] =
      map (\<lambda>j. Call_getString (idx + of_nat j)) [0..<length (s # rest)]"
    using ty by (intro map_cong) (auto simp: less_Suc_eq accessor_call_def)
  ultimately show "raw_query_value_pack d idx s rest c =
        (Inr True, map (\<lambda>j. (T_string, V_string (f j))) [0..<length (s # rest)],
         c\<lparr>calls := calls c @ map (\<lambda>j. Call_getString (idx + of_nat j)) [0..<length (s # rest)]\<rparr>)"
    by simp
qed

theorem string_slot_never_false_witness:
  "result (demo_at [demo_row] 1) = Some \<lparr>rows = [demo_row], cursor = 1\<rparr> \<and>
   getString (demo []) (current_row \<lparr>rows = [demo_row], cursor = 1\<rparr>) 3 = Inr ''x'' \<and>
   raw_query_value (demo []) T_string 3 (V_string []) (demo_at [demo_row] 1) =
     (Inr True, V_string ''x'', called (Call_getString 3) (demo_at [demo_row] 1)) \<and>
   getString (demo []) (current_row \<lparr>rows = [demo_row], cursor = 1\<rparr>) 4 = Inl no_such_column \<and>
   raw_query_value (demo []) T_string 4 (V_string []) (demo_at [demo_row] 1) =
     (Inl (Thrown no_such_column), V_string [], called (Call_getString 4) (demo_at [demo_row] 1)) \<and>
   fst (last [(T_int64, V_int64 0), (T_string, V_string [])]) = T_string \<and>
   fst (raw_query_value_pack (demo []) 1 (T_int64, V_int64 0) [(T_string, V_string [])]
     (demo_at [demo_row] 1)) \<noteq> Inr False \<and>
   list_all (\<lambda>x. fst x = T_string)
     [(T_string, V_string []), (T_string, V_string []), (T_string, V_string [])] \<and>
   getString (demo []) (current_row \<lparr>rows = [demo_row], cursor = 1\<rparr>) 1 = Inr ''7'' \<and>
   getString (demo []) (current_row \<lparr>rows = [demo_row], cursor = 1\<rparr>) 2 = Inr ''8'' \<and>
   raw_query_value_pack (demo []) 1 (T_string, V_string [])
       [(T_string, V_string []), (T_string, V_string [])] (demo_at [demo_row] 1) =
     (Inr True, [(T_string, V_string ''7''), (T_string, V_string ''8''), (T_string, V_string ''x'')],
      (demo_at [demo_row] 1)\<lparr>calls := [Call_getString 1, Call_getString 2, Call_getString 3]\<rparr>)"
proof -
  let ?rs = "\<lparr>rows = [demo_row], cursor = 1\<rparr>"
  let ?c = "demo_at [demo_row] 1"
  let ?s = "(T_string, V_string [])"
  have r: "result ?c = Some ?rs" by (simp add: demo_at_def)
  have g: "getString (demo []) (current_row ?rs) 1 = Inr ''7''"
    "getString (demo []) (current_row ?rs) 2 = Inr ''8''"
    "getString (demo []) (current_row ?rs) 3 = Inr ''x''"
    "getString (demo []) (current_row ?rs) 4 = Inl no_such_column"
    by (simp_all add: demos demo_row_def current_row_def no_such_column_def)
  have t: "demo_texts 0 = ''7''" "demo_texts (Suc 0) = ''8''" "demo_texts (Suc (Suc 0)) = ''x''"
    by (simp_all add: demo_texts_def)
  have three: "[0..<3] = [0, 1, 2]" by (simp add: upt_rec)
  have all: "\<forall>j < length [?s, ?s, ?s].
      getString (demo []) (current_row ?rs) (1 + of_nat j) = Inr (demo_texts j)"
    using g t by (simp add: All_less_Suc numeral_3_eq_3)
  note inst = string_slot_never_false [where d = "demo []" and c = ?c and rs = ?rs]
  have 1: "raw_query_value (demo []) T_string 3 (V_string []) ?c =
     (Inr True, V_string ''x'', called (Call_getString 3) ?c)"
    using inst [where idx = 3 and val = "V_string []" and str = "''x''"] r g by blast
  have 2: "raw_query_value (demo []) T_string 4 (V_string []) ?c =
     (Inl (Thrown no_such_column), V_string [], called (Call_getString 4) ?c)"
    using inst [where idx = 4 and val = "V_string []" and e = no_such_column] r g by blast
  have 3: "fst (raw_query_value_pack (demo []) 1 (T_int64, V_int64 0) [?s] ?c) \<noteq> Inr False"
    using inst [where idx = 1 and s = "(T_int64, V_int64 0)" and rest = "[?s]"] by simp
  have 4: "raw_query_value_pack (demo []) 1 ?s [?s, ?s] ?c =
     (Inr True, map (\<lambda>j. (T_string, V_string (demo_texts j))) [0..<length [?s, ?s, ?s]],
      ?c\<lparr>calls := calls ?c @ map (\<lambda>j. Call_getString (1 + of_nat j)) [0..<length [?s, ?s, ?s]]\<rparr>)"
    using inst [where idx = 1 and s = ?s and rest = "[?s, ?s]" and f = demo_texts] r all
    by simp
  from 4 have 5: "raw_query_value_pack (demo []) 1 ?s [?s, ?s] ?c =
     (Inr True, [(T_string, V_string ''7''), (T_string, V_string ''8''), (T_string, V_string ''x'')],
      ?c\<lparr>calls := [Call_getString 1, Call_getString 2, Call_getString 3]\<rparr>)"
    using t by (simp add: three demo_at_def)
  show ?thesis
    using r g 1 2 3 5 by simp
qed

text \<open>
  Claim C10, as stated, fails: the string accessor raises on a column index outside the
  row, so the specialisation does not return \<^verbatim>\<open>true\<close> for every column index, and
  \<^verbatim>\<open>execute_query_values\<close> with two \<^verbatim>\<open>std::string\<close> slots on a one-column row
  returns \<^verbatim>\<open>false\<close> although a row is available.
\<close>

theorem string_slot_counterexample:
  "getString (demo []) (current_row \<lparr>rows = [[Cell ''a'' None]], cursor = 1\<rparr>) 2 =
     Inl no_such_column \<and>
   raw_query_value (demo []) T_string 2 (V_string []) (demo_at [[Cell ''a'' None]] 1) =
     (Inl (Thrown no_such_column), V_string [],
      called (Call_getString 2) (demo_at [[Cell ''a'' None]] 1)) \<and>
   execute_query_values (demo [[Cell ''a'' None]]) ''SELECT name FROM t WHERE id = 1''
       (T_string, V_string []) [(T_string, V_string [])] (idle True) =
     (Inr False, [(T_string, V_string ''a''), (T_string, V_string [])],
      \<lparr>conn = True, result = Some \<lparr>rows = [[Cell ''a'' None]], cursor = 1\<rparr>,
       logged = exception_lines ''SELECT name FROM t WHERE id = 1'' no_such_column,
       calls = [Call_isValid, Call_execute ''SELECT name FROM t WHERE id = 1'',
         Call_getResultSet, Call_rowsCount, Call_rowsCount, Call_next,
         Call_getString 1, Call_getString 2]\<rparr>)"
  by (simp add: execute_query_values_def execute_query_values_try_def no_such_column_def
      exception_lines_def steps demos)

section \<open>\<^verbatim>\<open>execute_query_column\<close>\<close>

lemma loop_scan:
  assumes "result c = Some rs" "cursor rs \<le> length (rows rs)"
  shows "(fst (column_loop d ty rv vec flag c), fst (snd (column_loop d ty rv vec flag c))) =
    scan d ty (drop (cursor rs) (rows rs)) vec flag"
  using assms
proof (induction n \<equiv> "length (rows rs) - cursor rs" arbitrary: c rs rv vec flag)
  case 0
  then have "cursor rs = length (rows rs)" by simp
  with 0 show ?case
    by (simp add: column_loop.simps [of d ty rv vec flag c] result_next_def)
next
  case (Suc n)
  then have lt: "cursor rs < length (rows rs)" by simp
  let ?rs = "rs\<lparr>cursor := Suc (cursor rs)\<rparr>"
  let ?c1 = "called Call_next (c\<lparr>result := Some ?rs\<rparr>)"
  let ?r = "rows rs ! cursor rs"
  from lt Suc.prems have nx: "result_next c = (Inr True, ?c1)"
    by (simp add: result_next_def advance_def)
  have r1: "result ?c1 = Some ?rs" by simp
  from lt have cur: "current_row ?rs = Some ?r" by (simp add: current_row_def)
  from lt have dr: "drop (cursor rs) (rows rs) = ?r # drop (cursor ?rs) (rows ?rs)"
    by (simp add: Cons_nth_drop_Suc)
  have n: "n = length (rows ?rs) - cursor ?rs" using Suc.hyps(2) by simp
  have le: "cursor ?rs \<le> length (rows ?rs)" using lt by simp
  show ?case
  proof (cases "supported ty")
    case True
    note q = raw_query_value_supported [OF r1 True, of d 1 rv, unfolded cur]
    show ?thesis
    proof (cases "accessor_value d ty (Some ?r) 1")
      case (Inl e)
      with q nx True dr show ?thesis
        by (simp add: column_loop.simps [of d ty rv vec flag c])
    next
      case (Inr v)
      let ?c2 = "called (accessor_call ty 1) ?c1"
      have r2: "result ?c2 = Some ?rs" by simp
      from Suc.hyps(1) [OF n r2 le, of v "vec @ [v]" True] q nx True dr Inr show ?thesis
        by (simp add: column_loop.simps [of d ty rv vec flag c])
    qed
  next
    case False
    then obtain nm where ty: "ty = T_other nm" by (auto simp: supported_cases)
    let ?c2 = "log_error [Text ''Unsupported type: '', Type_name (T_other nm)] ?c1"
    have r2: "result ?c2 = Some ?rs" by simp
    from Suc.hyps(1) [OF n r2 le, of rv vec flag] nx False dr ty show ?thesis
      by (simp add: column_loop.simps [of d "T_other nm" rv vec flag c] raw_query_value_other)
  qed
qed

lemma scan_all:
  "supported ty \<Longrightarrow> \<forall>r \<in> set rs. accessor_value d ty (Some r) 1 = Inr (f r) \<Longrightarrow>
   scan d ty rs vec flag = (Inr (flag \<or> rs \<noteq> []), vec @ map f rs)"
  by (induction rs arbitrary: vec flag) simp_all

lemma scan_unsupported:
  "\<not> supported ty \<Longrightarrow> scan d ty rs vec flag = (Inr flag, vec)"
  by (induction rs arbitrary: vec flag) simp_all

lemma scan_throw:
  "supported ty \<Longrightarrow> k < length rs \<Longrightarrow>
   \<forall>j < k. accessor_value d ty (Some (rs ! j)) 1 = Inr (f (rs ! j)) \<Longrightarrow>
   accessor_value d ty (Some (rs ! k)) 1 = Inl e \<Longrightarrow>
   scan d ty rs vec flag = (Inl (Thrown e), vec @ map f (take k rs))"
proof (induction rs arbitrary: k vec flag)
  case Nil
  then show ?case by simp
next
  case (Cons r rs)
  show ?case
  proof (cases k)
    case 0
    with Cons.prems show ?thesis by simp
  next
    case (Suc k')
    with Cons.prems have "accessor_value d ty (Some r) 1 = Inr (f r)" by force
    moreover from Suc Cons.prems
    have "scan d ty rs (vec @ [f r]) True = (Inl (Thrown e), (vec @ [f r]) @ map f (take k' rs))"
      by (intro Cons.IH) auto
    ultimately show ?thesis using Suc Cons.prems(1) by simp
  qed
qed

lemma catch_fst:
  "fst (catch_SQLException sql (x, out, c)) =
     (case x of Inl (Thrown e) \<Rightarrow> Inr False | _ \<Rightarrow> x)"
  "fst (snd (catch_SQLException sql (x, out, c))) = out"
  by (simp_all add: catch_SQLException_def split: sum.splits fault.splits)

lemma column_scan:
  assumes "run_query d sql c = (Inr (), c1)" "result c1 = Some (fresh_result rws)" "rws \<noteq> []"
  shows "fst (execute_query_column d sql ty r_init vec c) =
      (case fst (scan d ty rws [] False) of Inl (Thrown e) \<Rightarrow> Inr False | x \<Rightarrow> x)"
    "fst (snd (execute_query_column d sql ty r_init vec c)) = snd (scan d ty rws [] False)"
proof -
  let ?c2 = "called Call_rowsCount c1"
  have r2: "result ?c2 = Some (fresh_result rws)" using assms(2) by simp
  from loop_scan [OF r2, of d ty r_init "[]" False]
  have l: "(fst (column_loop d ty r_init [] False ?c2),
      fst (snd (column_loop d ty r_init [] False ?c2))) = scan d ty rws [] False"
    by simp
  obtain x out c' where m: "column_loop d ty r_init [] False ?c2 = (x, out, c')"
    by (cases "column_loop d ty r_init [] False ?c2")
  with l have s: "scan d ty rws [] False = (x, out)" by simp
  from assms have t: "execute_query_column_try d sql ty r_init vec c = (x, out, c')"
    by (simp add: execute_query_column_try_def result_rowsCount_def m)
  show "fst (execute_query_column d sql ty r_init vec c) =
      (case fst (scan d ty rws [] False) of Inl (Thrown e) \<Rightarrow> Inr False | x \<Rightarrow> x)"
    by (simp add: execute_query_column_def t s catch_fst split: sum.splits fault.splits)
  show "fst (snd (execute_query_column d sql ty r_init vec c)) = snd (scan d ty rws [] False)"
    by (simp add: execute_query_column_def t s catch_fst)
qed

text \<open>
  Claim C3, as amended. \<^verbatim>\<open>execute_query_column\<close> on a result set with no row
  returns \<^verbatim>\<open>false\<close> and leaves the vector as it was. Otherwise it clears the vector
  and visits the rows in result order, extracting column 1. With a supported type and an
  accessor that returns on every row it returns \<^verbatim>\<open>true\<close> and the vector holds every
  row's value in result order. With an unsupported type it returns \<^verbatim>\<open>false\<close> and the
  vector is empty. When the accessor raises at a row the visit stops there: the call
  returns \<^verbatim>\<open>false\<close> and the vector holds the values of the rows before that one.
\<close>

theorem execute_query_column_rows:
  "run_query d sql c = (Inr (), c1) \<and> result c1 = Some (fresh_result rws) \<longrightarrow>
     (rws = [] \<longrightarrow>
        execute_query_column d sql ty r_init vec c =
          (Inr False, vec, called Call_rowsCount c1)) \<and>
     (rws \<noteq> [] \<and> supported ty \<and>
      (\<forall>r \<in> set rws. accessor_value d ty (Some r) 1 = Inr (f r)) \<longrightarrow>
        fst (execute_query_column d sql ty r_init vec c) = Inr True \<and>
        fst (snd (execute_query_column d sql ty r_init vec c)) = map f rws) \<and>
     (rws \<noteq> [] \<and> \<not> supported ty \<longrightarrow>
        fst (execute_query_column d sql ty r_init vec c) = Inr False \<and>
        fst (snd (execute_query_column d sql ty r_init vec c)) = []) \<and>
     (supported ty \<and> k < length rws \<and>
      (\<forall>j < k. accessor_value d ty (Some (rws ! j)) 1 = Inr (f (rws ! j))) \<and>
      accessor_value d ty (Some (rws ! k)) 1 = Inl e \<longrightarrow>
        fst (execute_query_column d sql ty r_init vec c) = Inr False \<and>
        fst (snd (execute_query_column d sql ty r_init vec c)) = map f (take k rws))"
proof (intro impI conjI)
  assume a: "run_query d sql c = (Inr (), c1) \<and> result c1 = Some (fresh_result rws)"
  then have rq: "run_query d sql c = (Inr (), c1)" and rs: "result c1 = Some (fresh_result rws)"
    by simp_all
  {
    assume "rws = []"
    with rq rs show "execute_query_column d sql ty r_init vec c =
          (Inr False, vec, called Call_rowsCount c1)"
      by (simp add: execute_query_column_def execute_query_column_try_def result_rowsCount_def)
  next
    assume h: "rws \<noteq> [] \<and> supported ty \<and>
      (\<forall>r \<in> set rws. accessor_value d ty (Some r) 1 = Inr (f r))"
    then have "scan d ty rws [] False = (Inr True, map f rws)"
      using scan_all [of ty rws d f "[]" False] by simp
    with h column_scan [OF rq rs, of ty r_init vec]
    show "fst (execute_query_column d sql ty r_init vec c) = Inr True"
      "fst (snd (execute_query_column d sql ty r_init vec c)) = map f rws"
      by simp_all
  next
    assume h: "rws \<noteq> [] \<and> \<not> supported ty"
    then have "scan d ty rws [] False = (Inr False, [])"
      by (simp add: scan_unsupported)
    with h column_scan [OF rq rs, of ty r_init vec]
    show "fst (execute_query_column d sql ty r_init vec c) = Inr False"
      "fst (snd (execute_query_column d sql ty r_init vec c)) = []"
      by simp_all
  next
    assume h: "supported ty \<and> k < length rws \<and>
      (\<forall>j < k. accessor_value d ty (Some (rws ! j)) 1 = Inr (f (rws ! j))) \<and>
      accessor_value d ty (Some (rws ! k)) 1 = Inl e"
    then have "scan d ty rws [] False = (Inl (Thrown e), map f (take k rws))"
      using scan_throw [of ty k rws d f e "[]" False] by simp
    moreover from h have "rws \<noteq> []" by auto
    ultimately
    show "fst (execute_query_column d sql ty r_init vec c) = Inr False"
      "fst (snd (execute_query_column d sql ty r_init vec c)) = map f (take k rws)"
      using column_scan [OF rq rs, of ty r_init vec] by simp_all
  }
qed

theorem execute_query_column_rows_witness:
  "run_query (demo []) ''q'' (idle True) = (Inr (), demo_ran [] ''q'') \<and>
   result (demo_ran [] ''q'') = Some (fresh_result []) \<and>
   execute_query_column (demo []) ''q'' T_int64 (V_int64 0) [V_int64 1] (idle True) =
     (Inr False, [V_int64 1], called Call_rowsCount (demo_ran [] ''q'')) \<and>
   run_query (demo demo_numbers) ''q'' (idle True) = (Inr (), demo_ran demo_numbers ''q'') \<and>
   result (demo_ran demo_numbers ''q'') = Some (fresh_result demo_numbers) \<and>
   demo_numbers \<noteq> [] \<and> supported T_int64 \<and> \<not> supported (T_other ''s'') \<and>
   accessor_value (demo demo_numbers) T_int64 (Some (demo_numbers ! 0)) 1 =
     Inr (demo_int64 (demo_numbers ! 0)) \<and>
   accessor_value (demo demo_numbers) T_int64 (Some (demo_numbers ! 1)) 1 =
     Inr (demo_int64 (demo_numbers ! 1)) \<and>
   fst (execute_query_column (demo demo_numbers) ''q'' T_int64 (V_int64 0) [V_int64 1]
     (idle True)) = Inr True \<and>
   fst (snd (execute_query_column (demo demo_numbers) ''q'' T_int64 (V_int64 0) [V_int64 1]
     (idle True))) = [V_int64 7, V_int64 8] \<and>
   fst (execute_query_column (demo demo_numbers) ''q'' (T_other ''s'') (V_other 0) [V_other 1]
     (idle True)) = Inr False \<and>
   fst (snd (execute_query_column (demo demo_numbers) ''q'' (T_other ''s'') (V_other 0)
     [V_other 1] (idle True))) = [] \<and>
   run_query (demo demo_mixed) ''q'' (idle True) = (Inr (), demo_ran demo_mixed ''q'') \<and>
   result (demo_ran demo_mixed ''q'') = Some (fresh_result demo_mixed) \<and>
   1 < length demo_mixed \<and>
   accessor_value (demo demo_mixed) T_int64 (Some (demo_mixed ! 0)) 1 =
     Inr (demo_int64 (demo_mixed ! 0)) \<and>
   accessor_value (demo demo_mixed) T_int64 (Some (demo_mixed ! 1)) 1 = Inl not_a_number \<and>
   fst (execute_query_column (demo demo_mixed) ''q'' T_int64 (V_int64 0) [V_int64 1]
     (idle True)) = Inr False \<and>
   fst (snd (execute_query_column (demo demo_mixed) ''q'' T_int64 (V_int64 0) [V_int64 1]
     (idle True))) = [V_int64 7]"
proof -
  have r: "result (demo_ran [] ''q'') = Some (fresh_result [])"
    "result (demo_ran demo_numbers ''q'') = Some (fresh_result demo_numbers)"
    "result (demo_ran demo_mixed ''q'') = Some (fresh_result demo_mixed)"
    by (simp_all add: demo_ran_def fresh_result_def)
  have s: "demo_numbers \<noteq> []" "supported T_int64" "\<not> supported (T_other ''s'')"
    "1 < length demo_mixed"
    by (simp_all add: demo_numbers_def demo_mixed_def supported_def)
  have a: "accessor_value (demo demo_numbers) T_int64 (Some (demo_numbers ! 0)) 1 =
      Inr (demo_int64 (demo_numbers ! 0))"
    "accessor_value (demo demo_numbers) T_int64 (Some (demo_numbers ! 1)) 1 =
      Inr (demo_int64 (demo_numbers ! 1))"
    "accessor_value (demo demo_mixed) T_int64 (Some (demo_mixed ! 0)) 1 =
      Inr (demo_int64 (demo_mixed ! 0))"
    "accessor_value (demo demo_mixed) T_int64 (Some (demo_mixed ! 1)) 1 = Inl not_a_number"
    by (simp_all add: accessor_value_def cast_int64_def demo_int64_def demo_numbers_def
        demo_mixed_def not_a_number_def demos)
  have all: "\<forall>r \<in> set demo_numbers.
      accessor_value (demo demo_numbers) T_int64 (Some r) 1 = Inr (demo_int64 r)"
    using a(1,2) by (simp add: demo_numbers_def)
  have before: "\<forall>j < 1. accessor_value (demo demo_mixed) T_int64 (Some (demo_mixed ! j)) 1 =
      Inr (demo_int64 (demo_mixed ! j))"
    using a(3) by simp
  have m: "map demo_int64 demo_numbers = [V_int64 7, V_int64 8]"
    "map demo_int64 (take 1 demo_mixed) = [V_int64 7]"
    by (simp_all add: demo_int64_def demo_numbers_def demo_mixed_def)
  have e0: "execute_query_column (demo []) ''q'' T_int64 (V_int64 0) [V_int64 1] (idle True) =
     (Inr False, [V_int64 1], called Call_rowsCount (demo_ran [] ''q''))"
    using execute_query_column_rows [where d = "demo []" and sql = "''q''" and c = "idle True"
        and ?c1.0 = "demo_ran [] ''q''" and rws = "[]" and ty = T_int64
        and r_init = "V_int64 0" and vec = "[V_int64 1]"]
      demo_run_query [of "[]" "''q''"] r(1)
    by blast
  have e1: "fst (execute_query_column (demo demo_numbers) ''q'' T_int64 (V_int64 0) [V_int64 1]
       (idle True)) = Inr True \<and>
     fst (snd (execute_query_column (demo demo_numbers) ''q'' T_int64 (V_int64 0) [V_int64 1]
       (idle True))) = map demo_int64 demo_numbers"
    using execute_query_column_rows [where d = "demo demo_numbers" and sql = "''q''"
        and c = "idle True" and ?c1.0 = "demo_ran demo_numbers ''q''" and rws = demo_numbers
        and ty = T_int64 and r_init = "V_int64 0" and vec = "[V_int64 1]" and f = demo_int64]
      demo_run_query [of demo_numbers "''q''"] r(2) s all
    by blast
  have e2: "fst (execute_query_column (demo demo_numbers) ''q'' (T_other ''s'') (V_other 0)
       [V_other 1] (idle True)) = Inr False \<and>
     fst (snd (execute_query_column (demo demo_numbers) ''q'' (T_other ''s'') (V_other 0)
       [V_other 1] (idle True))) = []"
    using execute_query_column_rows [where d = "demo demo_numbers" and sql = "''q''"
        and c = "idle True" and ?c1.0 = "demo_ran demo_numbers ''q''" and rws = demo_numbers
        and ty = "T_other ''s''" and r_init = "V_other 0" and vec = "[V_other 1]"]
      demo_run_query [of demo_numbers "''q''"] r(2) s
    by blast
  have e3: "fst (execute_query_column (demo demo_mixed) ''q'' T_int64 (V_int64 0) [V_int64 1]
       (idle True)) = Inr False \<and>
     fst (snd (execute_query_column (demo demo_mixed) ''q'' T_int64 (V_int64 0) [V_int64 1]
       (idle True))) = map demo_int64 (take 1 demo_mixed)"
    using execute_query_column_rows [where d = "demo demo_mixed" and sql = "''q''"
        and c = "idle True" and ?c1.0 = "demo_ran demo_mixed ''q''" and rws = demo_mixed
        and ty = T_int64 and r_init = "V_int64 0" and vec = "[V_int64 1]" and f = demo_int64
        and k = 1 and e = not_a_number]
      demo_run_query [of demo_mixed "''q''"] r(3) s before a(4)
    by blast
  show ?thesis
    using r s a e0 e1 e2 e3 m demo_run_query [of "[]" "''q''"]
      demo_run_query [of demo_numbers "''q''"] demo_run_query [of demo_mixed "''q''"]
    by simp
qed

text \<open>
  Claim C3, as stated, fails: an extraction fails on one row and not on another only
  when the accessor raises, and then the call returns \<^verbatim>\<open>false\<close> although a row was
  present and an earlier extraction had succeeded; the rows after the failing one are
  not visited.
\<close>

theorem partial_success_counterexample:
  "accessor_value (demo demo_mixed) T_int64 (Some (demo_mixed ! 0)) 1 = Inr (V_int64 7) \<and>
   accessor_value (demo demo_mixed) T_int64 (Some (demo_mixed ! 1)) 1 = Inl not_a_number \<and>
   execute_query_column (demo demo_mixed) ''q'' T_int64 (V_int64 0) [] (idle True) =
     (Inr False, [V_int64 7],
      \<lparr>conn = True, result = Some \<lparr>rows = demo_mixed, cursor = 2\<rparr>,
       logged = exception_lines ''q'' not_a_number,
       calls = [Call_isValid, Call_execute ''q'', Call_getResultSet, Call_rowsCount,
         Call_next, Call_getInt64 1, Call_next, Call_getInt64 1]\<rparr>)"
  by (simp add: execute_query_column_def execute_query_column_try_def column_loop.simps
      accessor_value_def demo_mixed_def not_a_number_def exception_lines_def steps demos)

end
